theory Spec2Isabelle
  imports Main "HOL-Library.AList" "HOL-Library.List_Lexorder" "HOL-Library.Char_ord"
begin

section \<open>Values of the documentation layer\<close>

text \<open>
  The Swagger serializer of flask-restplus (\<^verbatim>\<open>swagger.py\<close>) works on untyped Python
  data: dictionaries attached to resources and handlers, request parsers, model
  references and the classes \<^verbatim>\<open>int\<close>, \<^verbatim>\<open>str\<close>, \<^verbatim>\<open>bool\<close>. One datatype holds them all.
  A dictionary is an association list in insertion order (an \<^verbatim>\<open>OrderedDict\<close>); a list
  (\<open>VList\<close>) and a tuple (\<open>VTuple\<close>) are told apart, as a list cannot be hashed.
\<close>

datatype pytype = PyInt | PyStr | PyBool | PyClass string

datatype val =
    VNone
  | VBool bool
  | VInt int
  | VStr string
  | VList "val list"
  | VTuple "val list"
  | VDict "(val \<times> val) list"
  | VType pytype
  | VModel string val "(val \<times> val) list"
  | VField val
  | VFieldClass val
  | VParser "arg list"
  | VCall val
and arg =
  Arg (arg_name: string) (arg_location: val) (arg_type: argtype) (arg_required: bool)
      (arg_help: val) (arg_default: val) (arg_action: val) (arg_choices: val)
and argtype =
  ArgType (type_val: val) (apidoc_attr: "val option") (schema_attr: "val option")

text \<open>
  Modelled from the spec: the classes \<^verbatim>\<open>Model\<close> and \<^verbatim>\<open>fields.Raw\<close> are imported by
  \<^verbatim>\<open>swagger.py\<close> and are not among the sources. \<open>VModel n s items\<close> is an instance of
  \<^verbatim>\<open>Model\<close> whose \<^verbatim>\<open>name\<close> is \<open>n\<close>, whose \<^verbatim>\<open>__schema__\<close> is \<open>s\<close> and whose items, from field
  name to field, are \<open>items\<close>: a model is a mapping (\<^verbatim>\<open>register_model\<close> goes through
  its values), so it is false without items, iterating it gives its keys, and it
  cannot be hashed. \<open>VField s\<close> is an instance of \<^verbatim>\<open>fields.Raw\<close> whose \<^verbatim>\<open>__schema__\<close> is \<open>s\<close>;
  \<open>VFieldClass s\<close> is a subclass of \<^verbatim>\<open>fields.Raw\<close> whose instances have that schema, the
  attribute \<^verbatim>\<open>__schema__\<close> of the class itself being the descriptor and no mapping.
  \<open>VCall v\<close> is a callable without arguments that returns \<open>v\<close>. An instance of
  \<^verbatim>\<open>fields.Raw\<close>, a class, a parser and a callable count as true and can be hashed. An
  argument of a request parser carries the attributes \<^verbatim>\<open>parser_to_params\<close> reads; its
  \<^verbatim>\<open>type\<close> is an object (\<open>type_val\<close>) that may have the attributes \<^verbatim>\<open>__apidoc__\<close> and
  \<^verbatim>\<open>__schema__\<close>.
\<close>

type_synonym dict = "(val \<times> val) list"

datatype reason =
    UnsupportedConverter
  | Unpack
  | ModelNotRegistered val
  | UnsupportedTag

datatype error =
    ValueError reason
  | SpecsError
  | KeyError
  | IndexError
  | TypeError
  | AttributeError

text \<open>Python's truth value of an object, as \<^verbatim>\<open>if x\<close> and \<^verbatim>\<open>x or None\<close> test it.\<close>

fun truthy :: "val \<Rightarrow> bool" where
  "truthy VNone = False"
| "truthy (VBool b) = b"
| "truthy (VInt i) = (i \<noteq> 0)"
| "truthy (VStr s) = (s \<noteq> [])"
| "truthy (VList xs) = (xs \<noteq> [])"
| "truthy (VTuple xs) = (xs \<noteq> [])"
| "truthy (VDict d) = (d \<noteq> [])"
| "truthy (VModel n s items) = (items \<noteq> [])"
| "truthy _ = True"

text \<open>
  \<^verbatim>\<open>isinstance(x, Hashable)\<close>, and whether \<^verbatim>\<open>hash(x)\<close> succeeds, which is what a
  dictionary or a set asks of a key: a list and a dictionary (a model is one) have no
  hash; a tuple has one and can be hashed when its elements can.
\<close>

definition is_Hashable :: "val \<Rightarrow> bool" where
  "is_Hashable v =
     (case v of VList xs \<Rightarrow> False | VDict d \<Rightarrow> False | VModel n s items \<Rightarrow> False | _ \<Rightarrow> True)"

fun hashable :: "val \<Rightarrow> bool" where
  "hashable (VList xs) = False"
| "hashable (VDict d) = False"
| "hashable (VModel n s items) = False"
| "hashable (VTuple xs) = list_all hashable xs"
| "hashable _ = True"

text \<open>\<^verbatim>\<open>isinstance(x, (list, tuple))\<close>: the elements of a list or a tuple.\<close>

definition sequence_items :: "val \<Rightarrow> val list option" where
  "sequence_items v = (case v of VList xs \<Rightarrow> Some xs | VTuple xs \<Rightarrow> Some xs | _ \<Rightarrow> None)"

definition or_none :: "val \<Rightarrow> val" where
  "or_none v = (if truthy v then v else VNone)"

text \<open>\<^verbatim>\<open>k in d\<close>, \<^verbatim>\<open>d[k] = v\<close> and \<^verbatim>\<open>d.update(e)\<close> on dictionaries.\<close>

definition has_key :: "('k \<times> 'v) list \<Rightarrow> 'k \<Rightarrow> bool" where
  "has_key d k = (k \<in> fst ` set d)"

definition setitem :: "'k \<Rightarrow> 'v \<Rightarrow> ('k \<times> 'v) list \<Rightarrow> ('k \<times> 'v) list" where
  "setitem k v d = AList.update k v d"

definition dict_update :: "dict \<Rightarrow> dict \<Rightarrow> dict" where
  "dict_update d e = fold (\<lambda>(k, v). setitem k v) e d"

text \<open>
  \<^verbatim>\<open>d[k]\<close> on a dictionary, and \<^verbatim>\<open>v[k]\<close> on any object for a key that is a string, as
  every subscript of the serializer is: a list, a tuple and a string take no such
  index, other objects take none.
\<close>

definition getitem :: "dict \<Rightarrow> val \<Rightarrow> error + val" where
  "getitem d k = (case map_of d k of None \<Rightarrow> Inl KeyError | Some v \<Rightarrow> Inr v)"

definition subscript :: "val \<Rightarrow> val \<Rightarrow> error + val" where
  "subscript v k =
     (case v of
        VDict d \<Rightarrow> getitem d k
      | VModel n s items \<Rightarrow> getitem items k
      | _ \<Rightarrow> Inl TypeError)"

text \<open>
  What iterating an object gives: the elements of a list or a tuple, the characters of
  a string, the keys of a mapping; any other object here is not iterable. With it,
  \<^verbatim>\<open>a, b = x\<close>: \<^verbatim>\<open>ValueError\<close> unless there are exactly two.
\<close>

definition iterate :: "val \<Rightarrow> error + val list" where
  "iterate v =
     (case v of
        VList xs \<Rightarrow> Inr xs
      | VTuple xs \<Rightarrow> Inr xs
      | VStr s \<Rightarrow> Inr (map (\<lambda>c. VStr [c]) s)
      | VDict d \<Rightarrow> Inr (map fst d)
      | VModel n s items \<Rightarrow> Inr (map fst items)
      | _ \<Rightarrow> Inl TypeError)"

definition unpack2 :: "val \<Rightarrow> error + (val \<times> val)" where
  "unpack2 v =
     (case iterate v of
        Inl e \<Rightarrow> Inl e
      | Inr [a, b] \<Rightarrow> Inr (a, b)
      | Inr _ \<Rightarrow> Inl (ValueError Unpack))"

text \<open>
  \<^verbatim>\<open>d.update(e)\<close> for any object \<open>e\<close>: the items of a mapping, or else the pairs that
  iterating \<open>e\<close> gives, each of which must unpack into a key that can be hashed and a
  value.
\<close>

fun update_pairs :: "dict \<Rightarrow> val list \<Rightarrow> error + dict" where
  "update_pairs d [] = Inr d"
| "update_pairs d (x # xs) =
     (case unpack2 x of
        Inl e \<Rightarrow> Inl e
      | Inr (k, v) \<Rightarrow> if hashable k then update_pairs (setitem k v d) xs else Inl TypeError)"

definition update_from :: "dict \<Rightarrow> val \<Rightarrow> error + dict" where
  "update_from d e =
     (case e of
        VDict items \<Rightarrow> Inr (dict_update d items)
      | VModel n s items \<Rightarrow> Inr (dict_update d items)
      | _ \<Rightarrow> (case iterate e of Inl err \<Rightarrow> Inl err | Inr xs \<Rightarrow> update_pairs d xs))"

section \<open>The tables\<close>

fun PATH_TYPES :: "string option \<Rightarrow> string option" where
  "PATH_TYPES None = Some ''string''"
| "PATH_TYPES (Some d) =
     (if d = ''int'' then Some ''integer''
      else if d = ''float'' then Some ''number''
      else if d = ''string'' then Some ''string''
      else None)"

fun LOCATIONS :: "val \<Rightarrow> string option" where
  "LOCATIONS (VStr l) =
     (if l = ''args'' then Some ''query''
      else if l = ''form'' then Some ''formData''
      else if l = ''headers'' then Some ''header''
      else if l = ''json'' then Some ''body''
      else if l = ''values'' then Some ''query''
      else if l = ''files'' then Some ''formData''
      else None)"
| "LOCATIONS _ = None"

fun PY_TYPES :: "val \<Rightarrow> string option" where
  "PY_TYPES (VType PyInt) = Some ''integer''"
| "PY_TYPES (VType PyStr) = Some ''string''"
| "PY_TYPES (VType PyBool) = Some ''boolean''"
| "PY_TYPES VNone = Some ''void''"
| "PY_TYPES _ = None"

definition DEFAULT_RESPONSE_DESCRIPTION :: string where
  "DEFAULT_RESPONSE_DESCRIPTION = ''Success''"

definition DEFAULT_RESPONSE :: dict where
  "DEFAULT_RESPONSE = [(VStr ''description'', VStr DEFAULT_RESPONSE_DESCRIPTION)]"

section \<open>Path parameters\<close>

text \<open>
  \<^verbatim>\<open>RE_PARAMS.findall(path)\<close> with \<^verbatim>\<open>RE_PARAMS = <((?:[^:<>]+:)?[^<>]+)>\<close>: the matches are the
  non-empty runs of characters other than \<^verbatim>\<open><\<close> and \<^verbatim>\<open>>\<close> that stand between a \<^verbatim>\<open><\<close>
  and a \<^verbatim>\<open>>\<close>, from left to right. The scanner is outside a bracket (\<open>None\<close>) or inside
  one, holding the run read so far in reverse.
\<close>

fun RE_PARAMS_scan :: "string option \<Rightarrow> string \<Rightarrow> string list" where
  "RE_PARAMS_scan _ [] = []"
| "RE_PARAMS_scan None (c # s) =
     (if c = CHR ''<'' then RE_PARAMS_scan (Some []) s else RE_PARAMS_scan None s)"
| "RE_PARAMS_scan (Some acc) (c # s) =
     (if c = CHR ''>'' then
        (if acc = [] then RE_PARAMS_scan None s else rev acc # RE_PARAMS_scan None s)
      else if c = CHR ''<'' then RE_PARAMS_scan (Some []) s
      else RE_PARAMS_scan (Some (c # acc)) s)"

definition RE_PARAMS_findall :: "string \<Rightarrow> string list" where
  "RE_PARAMS_findall path = RE_PARAMS_scan None path"

text \<open>\<^verbatim>\<open>s.split(':')\<close>.\<close>

fun split_colon :: "string \<Rightarrow> string list" where
  "split_colon [] = [[]]"
| "split_colon (c # s) =
     (if c = CHR '':'' then [] # split_colon s
      else (case split_colon s of [] \<Rightarrow> [[c]] | w # ws \<Rightarrow> (c # w) # ws))"

text \<open>
  \<^verbatim>\<open>descriptor, name = match.split(':') if ':' in match else (None, match)\<close>: unpacking
  anything but two parts raises \<^verbatim>\<open>ValueError\<close>.
\<close>

definition split_match :: "string \<Rightarrow> error + (string option \<times> string)" where
  "split_match m =
     (if CHR '':'' \<in> set m then
        (case split_colon m of
           [d, n] \<Rightarrow> Inr (Some d, n)
         | _ \<Rightarrow> Inl (ValueError Unpack))
      else Inr (None, m))"

text \<open>
  The branch of \<^verbatim>\<open>extract_path_params\<close> that chooses the type; \<open>converters\<close> are the
  keys of \<^verbatim>\<open>current_app.url_map.converters\<close>.
\<close>

definition path_param_type :: "string list \<Rightarrow> string option \<Rightarrow> error + string" where
  "path_param_type converters descriptor =
     (case PATH_TYPES descriptor of
        Some t \<Rightarrow> Inr t
      | None \<Rightarrow>
          (if descriptor \<in> Some ` set converters then Inr ''string''
           else Inl (ValueError UnsupportedConverter)))"

definition path_param :: "string \<Rightarrow> string \<Rightarrow> val" where
  "path_param name t =
     VDict [(VStr ''name'', VStr name), (VStr ''in'', VStr ''path''),
            (VStr ''required'', VBool True), (VStr ''type'', VStr t)]"

fun extract_path_params_loop :: "string list \<Rightarrow> dict \<Rightarrow> string list \<Rightarrow> error + dict" where
  "extract_path_params_loop converters params [] = Inr params"
| "extract_path_params_loop converters params (m # ms) =
     (case split_match m of
        Inl e \<Rightarrow> Inl e
      | Inr (descriptor, name) \<Rightarrow>
          (case path_param_type converters descriptor of
             Inl e \<Rightarrow> Inl e
           | Inr t \<Rightarrow>
               extract_path_params_loop converters
                 (setitem (VStr name) (path_param name t) params) ms))"

definition extract_path_params :: "string list \<Rightarrow> string \<Rightarrow> error + dict" where
  "extract_path_params converters path =
     extract_path_params_loop converters [] (RE_PARAMS_findall path)"

section \<open>Parameters of a request parser\<close>

text \<open>
  \<^verbatim>\<open>_handle_arg_type\<close>. \<^verbatim>\<open>arg.type in PY_TYPES\<close> hashes the type, which fails for a tuple
  that holds a list.
\<close>

definition handle_arg_type :: "arg \<Rightarrow> dict \<Rightarrow> error + dict" where
  "handle_arg_type a param =
     (if is_Hashable (type_val (arg_type a)) \<and> \<not> hashable (type_val (arg_type a))
      then Inl TypeError
      else
        (case PY_TYPES (type_val (arg_type a)) of
           Some t \<Rightarrow> Inr (setitem (VStr ''type'') (VStr t) param)
         | None \<Rightarrow>
             (case apidoc_attr (arg_type a) of
                Some apidoc \<Rightarrow>
                  (case subscript apidoc (VStr ''name'') of
                     Inl e \<Rightarrow> Inl e
                   | Inr n \<Rightarrow>
                       Inr (setitem (VStr ''in'') (VStr ''body'')
                             (setitem (VStr ''type'') n param)))
              | None \<Rightarrow>
                  (case schema_attr (arg_type a) of
                     Some schema \<Rightarrow> update_from param schema
                   | None \<Rightarrow>
                       (if arg_location a = VStr ''files''
                        then Inr (setitem (VStr ''type'') (VStr ''file'') param)
                        else Inr (setitem (VStr ''type'') (VStr ''string'') param))))))"

text \<open>
  The body of the loop of \<^verbatim>\<open>parser_to_params\<close> for an argument that is not a cookie, up
  to the parameter. \<^verbatim>\<open>LOCATIONS.get(arg.location, 'query')\<close> hashes the location: a list of
  locations raises \<^verbatim>\<open>TypeError\<close>, a tuple of strings is no key and gives \<^verbatim>\<open>'query'\<close>.
\<close>

definition arg_to_param :: "arg \<Rightarrow> error + dict" where
  "arg_to_param a =
     (if \<not> hashable (arg_location a) then Inl TypeError else
      let param = [(VStr ''in'',
                    VStr (case LOCATIONS (arg_location a) of None \<Rightarrow> ''query'' | Some l \<Rightarrow> l))]
      in case handle_arg_type a param of
           Inl e \<Rightarrow> Inl e
         | Inr param \<Rightarrow>
             (let param = (if arg_required a
                           then setitem (VStr ''required'') (VBool True) param else param);
                  param = (if truthy (arg_help a)
                           then setitem (VStr ''description'') (arg_help a) param else param);
                  param = (if truthy (arg_default a)
                           then setitem (VStr ''default'') (arg_default a) param else param)
              in case (if arg_action a = VStr ''append'' then
                         (case getitem param (VStr ''type'') of
                            Inl e \<Rightarrow> Inl e
                          | Inr t \<Rightarrow>
                              Inr (setitem (VStr ''collectionFormat'') (VStr ''multi'')
                                    (setitem (VStr ''type'') (VStr ''array'')
                                      (setitem (VStr ''items'') (VDict [(VStr ''type'', t)])
                                        param))))
                       else Inr param) of
                   Inl e \<Rightarrow> Inl e
                 | Inr param \<Rightarrow>
                     Inr (if truthy (arg_choices a)
                          then setitem (VStr ''collectionFormat'') (VStr ''multi'')
                                 (setitem (VStr ''enum'') (arg_choices a) param)
                          else param)))"

text \<open>
  \<^verbatim>\<open>parser_to_params\<close>: \<open>locations\<close> is the set of the \<^verbatim>\<open>in\<close> of every parameter built, which
  \<^verbatim>\<open>locations.add\<close> hashes.
\<close>

fun parser_to_params_loop :: "dict \<Rightarrow> val set \<Rightarrow> arg list \<Rightarrow> error + (dict \<times> val set)" where
  "parser_to_params_loop params locations [] = Inr (params, locations)"
| "parser_to_params_loop params locations (a # as) =
     (if arg_location a = VStr ''cookie'' then parser_to_params_loop params locations as
      else
        (case arg_to_param a of
           Inl e \<Rightarrow> Inl e
         | Inr param \<Rightarrow>
             (case getitem param (VStr ''in'') of
                Inl e \<Rightarrow> Inl e
              | Inr l \<Rightarrow>
                  if hashable l
                  then parser_to_params_loop (setitem (VStr (arg_name a)) (VDict param) params)
                         (insert l locations) as
                  else Inl TypeError)))"

definition parser_to_params :: "arg list \<Rightarrow> error + dict" where
  "parser_to_params args =
     (case parser_to_params_loop [] {} args of
        Inl e \<Rightarrow> Inl e
      | Inr (params, locations) \<Rightarrow>
          (if VStr ''body'' \<in> locations \<and> VStr ''formData'' \<in> locations then Inl SpecsError
           else Inr params))"

section \<open>Helpers of \<^verbatim>\<open>utils\<close>\<close>

text \<open>
  Modelled from the spec: \<^verbatim>\<open>utils.merge\<close> is imported by \<^verbatim>\<open>swagger.py\<close> and is not among the
  sources. The values of the second mapping take precedence over those of the first on a
  key conflict; a Parameter is itself a mapping merged from its sources, so two mappings
  under one key are merged in the same way. A second argument that is no mapping is the
  result (\<^verbatim>\<open>extract_resource_doc\<close> tests the result against \<^verbatim>\<open>False\<close>); items cannot be
  set on a first argument that is no mapping.
\<close>

fun merge_items :: "dict \<Rightarrow> dict \<Rightarrow> dict" where
  "merge_items d [] = d"
| "merge_items d ((k, VDict e') # e) =
     merge_items
       (setitem k (case map_of d k of
                     Some (VDict d') \<Rightarrow> VDict (merge_items d' e')
                   | _ \<Rightarrow> VDict e') d) e"
| "merge_items d ((k, v) # e) = merge_items (setitem k v d) e"

definition merge :: "val \<Rightarrow> val \<Rightarrow> error + val" where
  "merge first second =
     (case second of
        VDict e \<Rightarrow>
          (case first of
             VDict d \<Rightarrow> Inr (VDict (merge_items d e))
           | _ \<Rightarrow> if e = [] then Inr first else Inl TypeError)
      | _ \<Rightarrow> Inr second)"

text \<open>
  Modelled from the spec: \<^verbatim>\<open>utils.not_none\<close> is not among the sources. It drops the keys
  whose value is \<^verbatim>\<open>None\<close>; where an empty value is to go as well, the caller hands it over
  as \<^verbatim>\<open>value or None\<close>.
\<close>

definition not_none :: "('k \<times> val) list \<Rightarrow> ('k \<times> val) list" where
  "not_none d = filter (\<lambda>(k, v). v \<noteq> VNone) d"

text \<open>
  Modelled from the spec: \<^verbatim>\<open>utils.not_none_sorted\<close> is not among the sources. It is
  \<^verbatim>\<open>not_none\<close> with the keys in ascending order; here the keys are the paths.
\<close>

definition not_none_sorted :: "(string \<times> val) list \<Rightarrow> (string \<times> val) list" where
  "not_none_sorted d = sort_key fst (not_none d)"

section \<open>Strings\<close>

definition digit_char :: "nat \<Rightarrow> char" where
  "digit_char d = char_of (48 + d)"

function str_nat :: "nat \<Rightarrow> string" where
  "str_nat n = (if n < 10 then [digit_char n] else str_nat (n div 10) @ [digit_char (n mod 10)])"
  by pat_completeness auto
termination
  by (relation "measure id") auto

definition str_int :: "int \<Rightarrow> string" where
  "str_int i = (if i < 0 then CHR ''-'' # str_nat (nat (- i)) else str_nat (nat i))"

text \<open>
  \<^verbatim>\<open>str(x)\<close> and \<^verbatim>\<open>'{0}'.format(x)\<close>, on the values the serializer formats: strings and
  numbers. The text of any other object is not modelled.
\<close>

fun py_str :: "val \<Rightarrow> string" where
  "py_str (VStr s) = s"
| "py_str (VInt i) = str_int i"
| "py_str VNone = ''None''"
| "py_str (VBool b) = (if b then ''True'' else ''False'')"
| "py_str _ = ''<object>''"

definition lower_char :: "char \<Rightarrow> char" where
  "lower_char c =
     (let n = (of_char c :: nat) in if 65 \<le> n \<and> n \<le> 90 then char_of (n + 32) else c)"

definition lower :: "string \<Rightarrow> string" where
  "lower s = map lower_char s"

text \<open>
  The characters that \<^verbatim>\<open>strip()\<close> removes from a text string; a character here is a
  code point below 256.
\<close>

definition is_space :: "char \<Rightarrow> bool" where
  "is_space c =
     (c \<in> {CHR '' '', CHR 0x09, CHR 0x0A, CHR 0x0B, CHR 0x0C, CHR 0x0D,
            CHR 0x1C, CHR 0x1D, CHR 0x1E, CHR 0x1F, CHR 0x85, CHR 0xA0})"

definition strip :: "string \<Rightarrow> string" where
  "strip s = rev (dropWhile is_space (rev (dropWhile is_space s)))"

fun join :: "string \<Rightarrow> string list \<Rightarrow> string" where
  "join sep [] = []"
| "join sep [x] = x"
| "join sep (x # xs) = x @ sep @ join sep xs"

section \<open>Models and the API object\<close>

text \<open>
  A field of a model, as \<^verbatim>\<open>register_field\<close> tells them apart: \<^verbatim>\<open>fields.Polymorph\<close> with its
  \<^verbatim>\<open>mapping\<close>, \<^verbatim>\<open>fields.Nested\<close> with its \<^verbatim>\<open>nested\<close> model, \<^verbatim>\<open>fields.List\<close> with its
  \<^verbatim>\<open>container\<close>, and any other field.
\<close>

datatype field =
    Polymorph "(val \<times> val) list"
  | Nested val
  | ListField field
  | RawField

text \<open>
  An entry of \<^verbatim>\<open>api.models\<close>. \<open>m_parent\<close> is \<open>Some p\<close> when \<^verbatim>\<open>specs.__parent__\<close> tests true and
  is the reference \<open>p\<close>, \<open>m_fields\<close> are the items of the model, \<open>m_schema\<close> is its
  \<^verbatim>\<open>__schema__\<close>. An entry that is no \<^verbatim>\<open>Model\<close> has a \<^verbatim>\<open>__schema__\<close> or none.
\<close>

record model =
  m_parent :: "val option"
  m_fields :: "(string \<times> field) list"
  m_schema :: val

datatype specs = SModel model | SOther "val option"

type_synonym registry = "(val \<times> specs) list"

section \<open>Programs: state, errors and fuel\<close>

text \<open>
  A method of \<^verbatim>\<open>Swagger\<close> is a function from the state to an outcome and the state it
  leaves: \<open>Some (Inr x)\<close> when it returns \<open>x\<close>, \<open>Some (Inl e)\<close> when it raises \<open>e\<close>, \<open>None\<close>
  when the recursion is deeper than the fuel allows. What was written to the state
  before an exception stays written.
\<close>

type_synonym ('a, 's) prog = "'s \<Rightarrow> (error + 'a) option \<times> 's"

definition return_ok :: "'a \<Rightarrow> ('a, 's) prog" where
  "return_ok x = (\<lambda>s. (Some (Inr x), s))"

definition raise_err :: "error \<Rightarrow> ('a, 's) prog" where
  "raise_err e = (\<lambda>s. (Some (Inl e), s))"

definition out_of_fuel :: "('a, 's) prog" where
  "out_of_fuel = (\<lambda>s. (None, s))"

definition bind_prog :: "('a, 's) prog \<Rightarrow> ('a \<Rightarrow> ('b, 's) prog) \<Rightarrow> ('b, 's) prog" where
  "bind_prog m f =
     (\<lambda>s. case m s of
            (Some (Inr x), s') \<Rightarrow> f x s'
          | (Some (Inl e), s') \<Rightarrow> (Some (Inl e), s')
          | (None, s') \<Rightarrow> (None, s'))"

definition lift_result :: "error + 'a \<Rightarrow> ('a, 's) prog" where
  "lift_result r = (case r of Inl e \<Rightarrow> raise_err e | Inr x \<Rightarrow> return_ok x)"

definition modify :: "('s \<Rightarrow> 's) \<Rightarrow> (unit, 's) prog" where
  "modify f = (\<lambda>s. (Some (Inr ()), f s))"

definition get_state :: "('s, 's) prog" where
  "get_state = (\<lambda>s. (Some (Inr s), s))"

section \<open>Model registration\<close>

definition model_name :: "val \<Rightarrow> val" where
  "model_name m = (case m of VModel n s items \<Rightarrow> VStr n | _ \<Rightarrow> m)"

definition ref :: "val \<Rightarrow> val" where
  "ref m = VDict [(VStr ''$ref'', VStr (''#/definitions/'' @ py_str (model_name m)))]"

text \<open>
  The measure of a field for the termination of the registration below: a call of
  \<^verbatim>\<open>register_model\<close> lowers the fuel, and the calls between the other three functions go
  down the structure of a field.
\<close>

fun field_measure :: "field \<Rightarrow> nat" where
  "field_measure (Polymorph mapping) = Suc (Suc (length mapping))"
| "field_measure (Nested nested) = 1"
| "field_measure (ListField container) = Suc (field_measure container)"
| "field_measure RawField = 1"

text \<open>
  \<^verbatim>\<open>register_model\<close> and \<^verbatim>\<open>register_field\<close>, with the loops over the fields of a model and
  over the models of a polymorph mapping. \<open>models\<close> is \<^verbatim>\<open>self.api.models\<close>, the state is
  \<^verbatim>\<open>self._registered_models\<close>. Every call of \<^verbatim>\<open>register_model\<close> uses one unit of fuel.
\<close>

function (sequential) register_model :: "nat \<Rightarrow> registry \<Rightarrow> val \<Rightarrow> (val, registry) prog"
  and register_field :: "nat \<Rightarrow> registry \<Rightarrow> field \<Rightarrow> (unit, registry) prog"
  and register_fields :: "nat \<Rightarrow> registry \<Rightarrow> field list \<Rightarrow> (unit, registry) prog"
  and register_models :: "nat \<Rightarrow> registry \<Rightarrow> val list \<Rightarrow> (unit, registry) prog"
where
  "register_model 0 models m = out_of_fuel"
| "register_model (Suc n) models m =
     (case map_of models (model_name m) of
        None \<Rightarrow> raise_err (ValueError (ModelNotRegistered (model_name m)))
      | Some specs \<Rightarrow>
          bind_prog (modify (setitem (model_name m) specs)) (\<lambda>_.
          bind_prog
            (case specs of
               SModel md \<Rightarrow>
                 bind_prog
                   (case m_parent md of
                      Some p \<Rightarrow> bind_prog (register_model n models p) (\<lambda>_. return_ok ())
                    | None \<Rightarrow> return_ok ())
                   (\<lambda>_. register_fields n models (map snd (m_fields md)))
             | SOther _ \<Rightarrow> return_ok ())
            (\<lambda>_. return_ok (ref m))))"
| "register_field n models (Polymorph mapping) = register_models n models (map snd mapping)"
| "register_field n models (Nested nested) =
     bind_prog (register_model n models nested) (\<lambda>_. return_ok ())"
| "register_field n models (ListField container) = register_field n models container"
| "register_field n models RawField = return_ok ()"
| "register_fields n models [] = return_ok ()"
| "register_fields n models (f # fs) =
     bind_prog (register_field n models f) (\<lambda>_. register_fields n models fs)"
| "register_models n models [] = return_ok ()"
| "register_models n models (m # ms) =
     bind_prog (register_model n models m) (\<lambda>_. register_models n models ms)"
  by pat_completeness auto
termination
  by (relation "inv_image (less_than <*lex*> less_than)
        (\<lambda>x. case x of
           Inl (Inl (n, models, m)) \<Rightarrow> (n, 0)
         | Inl (Inr (n, models, f)) \<Rightarrow> (n, field_measure f)
         | Inr (Inl (n, models, fs)) \<Rightarrow> (n, Suc (sum_list (map field_measure fs) + length fs))
         | Inr (Inr (n, models, ms)) \<Rightarrow> (n, Suc (length ms)))") auto

text \<open>\<^verbatim>\<open>serialize_schema\<close>; \<^verbatim>\<open>model[0]\<close> of an empty list or tuple raises \<^verbatim>\<open>IndexError\<close>.\<close>

fun serialize_schema :: "nat \<Rightarrow> registry \<Rightarrow> val \<Rightarrow> (val, registry) prog" where
  "serialize_schema n models (VList []) = raise_err IndexError"
| "serialize_schema n models (VList (m # ms)) =
     bind_prog (serialize_schema n models m) (\<lambda>items.
       return_ok (VDict [(VStr ''type'', VStr ''array''), (VStr ''items'', items)]))"
| "serialize_schema n models (VTuple []) = raise_err IndexError"
| "serialize_schema n models (VTuple (m # ms)) =
     bind_prog (serialize_schema n models m) (\<lambda>items.
       return_ok (VDict [(VStr ''type'', VStr ''array''), (VStr ''items'', items)]))"
| "serialize_schema n models (VModel nm s fs) =
     bind_prog (register_model n models (VModel nm s fs))
       (\<lambda>_. return_ok (ref (VModel nm s fs)))"
| "serialize_schema n models (VStr nm) =
     bind_prog (register_model n models (VStr nm)) (\<lambda>_. return_ok (ref (VStr nm)))"
| "serialize_schema n models (VFieldClass s) = return_ok s"
| "serialize_schema n models (VField s) = return_ok s"
| "serialize_schema n models m =
     (case PY_TYPES m of
        Some t \<Rightarrow> return_ok (VDict [(VStr ''type'', VStr t)])
      | None \<Rightarrow> raise_err (ValueError (ModelNotRegistered m)))"

text \<open>\<^verbatim>\<open>serialize_definitions\<close>: the \<^verbatim>\<open>__schema__\<close> of every registered model.\<close>

fun specs_schema :: "specs \<Rightarrow> error + val" where
  "specs_schema (SModel md) = Inr (m_schema md)"
| "specs_schema (SOther (Some s)) = Inr s"
| "specs_schema (SOther None) = Inl AttributeError"

fun serialize_definitions :: "registry \<Rightarrow> error + dict" where
  "serialize_definitions [] = Inr []"
| "serialize_definitions ((name, specs) # reg) =
     (case specs_schema specs of
        Inl e \<Rightarrow> Inl e
      | Inr s \<Rightarrow>
          (case serialize_definitions reg of
             Inl e \<Rightarrow> Inl e
           | Inr d \<Rightarrow> Inr ((name, s) # d)))"

section \<open>The API object, the application and the state\<close>

text \<open>
  What \<^verbatim>\<open>parse_docstring\<close> reads off a handler: \<^verbatim>\<open>getdoc\<close> and the regular expressions are
  the host's; the raw text, the summary, the details and the \<^verbatim>\<open>:raises\<close> entries are taken
  as they come out of them.
\<close>

record docstring =
  doc_raw :: val
  doc_summary :: val
  doc_details :: val
  doc_raises :: "(string \<times> string) list"

definition parse_docstring :: "docstring \<Rightarrow> val" where
  "parse_docstring ds =
     VDict [(VStr ''raw'', doc_raw ds),
            (VStr ''summary'', or_none (doc_summary ds)),
            (VStr ''details'', or_none (doc_details ds)),
            (VStr ''returns'', VNone),
            (VStr ''params'', VList []),
            (VStr ''raises'', VDict (map (\<lambda>(n, d). (VStr n, VStr d)) (doc_raises ds)))]"

text \<open>
  A method of a resource with its \<^verbatim>\<open>__apidoc__\<close> (if it has one) and its docstring; a
  resource class with its \<^verbatim>\<open>__name__\<close>, its \<^verbatim>\<open>methods\<close> (\<open>None\<close> for \<^verbatim>\<open>None\<close>) and its
  method attributes by name. The \<^verbatim>\<open>__apidoc__\<close> that \<^verbatim>\<open>getattr\<close> finds on the class is a
  mutable object and lives in the state, under its address \<open>r_apidoc\<close>: a class that
  inherits the attribute from a base class has the address that the base class has,
  and the two share one dictionary.
\<close>

record method_impl =
  i_apidoc :: "val option"
  i_docstring :: docstring

record resource =
  r_apidoc :: nat
  r_name :: string
  r_methods :: "string list option"
  r_impls :: "(string \<times> method_impl) list"

record namespace =
  ns_name :: string
  ns_description :: val
  ns_resources :: "(resource \<times> string list) list"

text \<open>
  The attributes of the \<^verbatim>\<open>Api\<close> object that the serializer reads. \<open>api_blueprint\<close> is
  \<open>None\<close> without a blueprint and the \<^verbatim>\<open>subdomain\<close> of the blueprint otherwise;
  \<open>api_error_handlers\<close> are the items of \<^verbatim>\<open>_error_handlers\<close>, the exception class by its
  \<^verbatim>\<open>__name__\<close>; \<open>api_default_id\<close> is the method \<^verbatim>\<open>Api.default_id\<close>, which is not among the
  sources.
\<close>

record api =
  api_base_path :: string
  api_title :: val
  api_version :: val
  api_description :: val
  api_terms_url :: val
  api_contact :: val
  api_contact_email :: val
  api_contact_url :: val
  api_license :: val
  api_license_url :: val
  api_tags :: "val list"
  api_namespaces :: "namespace list"
  api_representations :: "val list"
  api_authorizations :: val
  api_security :: val
  api_models :: registry
  api_error_handlers :: "(string \<times> docstring) list"
  api_blueprint :: "val option"
  api_default_id :: "val \<Rightarrow> string \<Rightarrow> val"

text \<open>\<^verbatim>\<open>current_app\<close>: the configuration keys read here and the URL converters.\<close>

record app =
  config_SERVER_NAME :: "val option"
  config_RESTPLUS_MASK_SWAGGER :: val
  config_RESTPLUS_MASK_HEADER :: val
  url_map_converters :: "string list"

text \<open>
  The mutable objects: \<^verbatim>\<open>self._registered_models\<close>, the \<^verbatim>\<open>__apidoc__\<close> objects of the
  resource classes by address, and the \<^verbatim>\<open>__apidoc__\<close> attribute of each error handler (no
  entry when the attribute is missing).
\<close>

record state =
  registered_models :: registry
  resource_apidoc :: "(nat \<times> val) list"
  handler_apidoc :: "(string \<times> val) list"

definition on_registry :: "('a, registry) prog \<Rightarrow> ('a, state) prog" where
  "on_registry m =
     (\<lambda>s. case m (registered_models s) of (r, reg) \<Rightarrow> (r, s\<lparr>registered_models := reg\<rparr>))"

section \<open>Small steps of the serializer\<close>

text \<open>\<^verbatim>\<open>_v\<close>: a callable is called, any other value is itself.\<close>

definition deref :: "val \<Rightarrow> val" where
  "deref v = (case v of VCall x \<Rightarrow> x | _ \<Rightarrow> v)"

definition as_mapping :: "val \<Rightarrow> error + dict" where
  "as_mapping v = (case v of VDict d \<Rightarrow> Inr d | _ \<Rightarrow> Inl TypeError)"

definition is_string :: "val \<Rightarrow> bool" where
  "is_string v = (case v of VStr _ \<Rightarrow> True | _ \<Rightarrow> False)"

text \<open>
  \<^verbatim>\<open>extract_path\<close>: \<^verbatim>\<open>RE_URL.sub(r'{\1}', path)\<close> with \<^verbatim>\<open>RE_URL = <(?:[^:<>]+:)?([^<>]+)>\<close>. The group
  of a run is what follows its first colon when both sides of that colon are not empty,
  and the whole run otherwise.
\<close>

definition RE_URL_group :: "string \<Rightarrow> string" where
  "RE_URL_group run =
     (let pre = takeWhile (\<lambda>c. c \<noteq> CHR '':'') run;
          post = drop (Suc (length pre)) run
      in if pre \<noteq> [] \<and> post \<noteq> [] then post else run)"

fun RE_URL_sub :: "string option \<Rightarrow> string \<Rightarrow> string" where
  "RE_URL_sub None [] = []"
| "RE_URL_sub (Some acc) [] = CHR ''<'' # rev acc"
| "RE_URL_sub None (c # s) =
     (if c = CHR ''<'' then RE_URL_sub (Some []) s else c # RE_URL_sub None s)"
| "RE_URL_sub (Some acc) (c # s) =
     (if c = CHR ''>'' then
        (if acc = [] then ''<>'' @ RE_URL_sub None s
         else ''{'' @ RE_URL_group (rev acc) @ ''}'' @ RE_URL_sub None s)
      else if c = CHR ''<'' then (CHR ''<'' # rev acc) @ RE_URL_sub (Some []) s
      else RE_URL_sub (Some (c # acc)) s)"

definition extract_path :: "string \<Rightarrow> string" where
  "extract_path path = RE_URL_sub None path"

text \<open>
  \<^verbatim>\<open>_param_to_header\<close>; the result is the parameter object itself, changed in place. A
  field and a model have a \<^verbatim>\<open>__schema__\<close> to update from; that of a class of fields is no
  mapping and cannot be iterated.
\<close>

definition param_to_header :: "dict \<Rightarrow> error + dict" where
  "param_to_header param =
     (let param = AList.delete (VStr ''in'') param;
          typedef = (case map_of param (VStr ''type'') of None \<Rightarrow> VStr ''string'' | Some t \<Rightarrow> t)
      in if is_Hashable typedef \<and> \<not> hashable typedef then Inl TypeError
         else
           (case PY_TYPES typedef of
              Some t \<Rightarrow> Inr (setitem (VStr ''type'') (VStr t) param)
            | None \<Rightarrow>
                (case typedef of
                   VField schema \<Rightarrow> update_from param schema
                 | VModel n schema items \<Rightarrow> update_from param schema
                 | VFieldClass schema \<Rightarrow> Inl TypeError
                 | _ \<Rightarrow> Inr (setitem (VStr ''type'') typedef param))))"

text \<open>\<^verbatim>\<open>security_requirement\<close> and \<^verbatim>\<open>security_requirements\<close>.\<close>

definition security_requirement :: "val \<Rightarrow> val" where
  "security_requirement v =
     (case v of
        VStr s \<Rightarrow> VDict [(VStr s, VList [])]
      | VDict d \<Rightarrow>
          VDict (map (\<lambda>(k, x). (k, if sequence_items x \<noteq> None then x else VList [x])) d)
      | _ \<Rightarrow> VNone)"

definition security_requirements :: "val \<Rightarrow> val" where
  "security_requirements v =
     (case sequence_items v of
        Some vs \<Rightarrow> VList (map security_requirement vs)
      | None \<Rightarrow>
          (if truthy v then
             (let requirement = security_requirement v
              in if truthy requirement then VList [requirement] else VNone)
           else VList []))"

text \<open>\<^verbatim>\<open>get_host\<close>; joining anything but strings raises \<^verbatim>\<open>TypeError\<close>.\<close>

definition get_host :: "app \<Rightarrow> api \<Rightarrow> error + val" where
  "get_host ap a =
     (let hostname = or_none (case config_SERVER_NAME ap of None \<Rightarrow> VNone | Some h \<Rightarrow> h)
      in case api_blueprint a of
           Some subdomain \<Rightarrow>
             (if truthy hostname \<and> truthy subdomain then
                (case (subdomain, hostname) of
                   (VStr sd, VStr h) \<Rightarrow> Inr (VStr (join ''.'' [sd, h]))
                 | _ \<Rightarrow> Inl TypeError)
              else Inr hostname)
         | None \<Rightarrow> Inr hostname)"

text \<open>
  \<^verbatim>\<open>extract_tags\<close>. A tag of the list and its entry in \<^verbatim>\<open>by_name\<close> are one object: \<open>by_name\<close>
  holds the position of the tag in \<open>tags\<close>, under the name of the tag, which is hashed.
\<close>

definition normalize_tag :: "val \<Rightarrow> error + dict" where
  "normalize_tag tag =
     (case tag of
        VStr s \<Rightarrow> Inr [(VStr ''name'', VStr s)]
      | VDict d \<Rightarrow> if has_key d (VStr ''name'') then Inr d else Inl (ValueError UnsupportedTag)
      | _ \<Rightarrow>
          (case sequence_items tag of
             Some (a # b # _) \<Rightarrow> Inr [(VStr ''name'', a), (VStr ''description'', b)]
           | Some _ \<Rightarrow> Inl IndexError
           | None \<Rightarrow> Inl (ValueError UnsupportedTag)))"

fun extract_tags_declared ::
  "dict list \<Rightarrow> (val \<times> nat) list \<Rightarrow> val list \<Rightarrow> error + (dict list \<times> (val \<times> nat) list)" where
  "extract_tags_declared tags by_name [] = Inr (tags, by_name)"
| "extract_tags_declared tags by_name (tag # rest) =
     (case normalize_tag tag of
        Inl e \<Rightarrow> Inl e
      | Inr t \<Rightarrow>
          (case getitem t (VStr ''name'') of
             Inl e \<Rightarrow> Inl e
           | Inr name \<Rightarrow>
               if hashable name
               then extract_tags_declared (tags @ [t]) (setitem name (length tags) by_name) rest
               else Inl TypeError))"

fun extract_tags_namespaces :: "dict list \<Rightarrow> (val \<times> nat) list \<Rightarrow> namespace list \<Rightarrow> dict list" where
  "extract_tags_namespaces tags by_name [] = tags"
| "extract_tags_namespaces tags by_name (ns # rest) =
     (case map_of by_name (VStr (ns_name ns)) of
        None \<Rightarrow>
          extract_tags_namespaces
            (tags @ [[(VStr ''name'', VStr (ns_name ns)),
                      (VStr ''description'', ns_description ns)]]) by_name rest
      | Some i \<Rightarrow>
          (if truthy (ns_description ns) then
             extract_tags_namespaces
               (tags[i := setitem (VStr ''description'') (ns_description ns) (tags ! i)])
               by_name rest
           else extract_tags_namespaces tags by_name rest))"

definition extract_tags :: "api \<Rightarrow> error + val" where
  "extract_tags a =
     (case extract_tags_declared [] [] (api_tags a) of
        Inl e \<Rightarrow> Inl e
      | Inr (tags, by_name) \<Rightarrow>
          Inr (VList (map VDict (extract_tags_namespaces tags by_name (api_namespaces a)))))"

definition bind_result :: "error + 'a \<Rightarrow> ('a \<Rightarrow> error + 'b) \<Rightarrow> error + 'b" where
  "bind_result r f = (case r of Inl e \<Rightarrow> Inl e | Inr x \<Rightarrow> f x)"

fun map_result :: "('a \<Rightarrow> error + 'b) \<Rightarrow> 'a list \<Rightarrow> error + 'b list" where
  "map_result f [] = Inr []"
| "map_result f (x # xs) =
     (case f x of
        Inl e \<Rightarrow> Inl e
      | Inr y \<Rightarrow> (case map_result f xs of Inl e \<Rightarrow> Inl e | Inr ys \<Rightarrow> Inr (y # ys)))"

section \<open>The doc of a resource\<close>

text \<open>
  \<^verbatim>\<open>merge_params\<close>. The three sources are merged onto \<open>params\<close> in the order of the
  source text: the parser, the declared \<^verbatim>\<open>params\<close>, the \<^verbatim>\<open>body\<close>.
\<close>

definition parser_args :: "val \<Rightarrow> error + arg list" where
  "parser_args parser = (case parser of VParser args \<Rightarrow> Inr args | _ \<Rightarrow> Inl AttributeError)"

definition body_model :: "val \<Rightarrow> val \<times> val" where
  "body_model body =
     (case sequence_items body of
        Some [model, description] \<Rightarrow> (model, description)
      | _ \<Rightarrow> (body, VNone))"

definition payload :: "val \<Rightarrow> val \<Rightarrow> val" where
  "payload schema description =
     VDict [(VStr ''payload'',
             VDict (not_none [(VStr ''name'', VStr ''payload''),
                              (VStr ''required'', VBool True),
                              (VStr ''in'', VStr ''body''),
                              (VStr ''schema'', schema),
                              (VStr ''description'', description)]))]"

definition merge_params :: "nat \<Rightarrow> registry \<Rightarrow> val \<Rightarrow> dict \<Rightarrow> (val, registry) prog" where
  "merge_params n models params doc =
     (if \<not> has_key doc (VStr ''params'') \<and> \<not> has_key doc (VStr ''parser'')
         \<and> \<not> has_key doc (VStr ''body'')
      then return_ok params
      else
        bind_prog
          (case map_of doc (VStr ''parser'') of
             Some parser \<Rightarrow>
               lift_result
                 (bind_result (parser_args parser) (\<lambda>args.
                  bind_result (parser_to_params args) (\<lambda>parsed. merge params (VDict parsed))))
           | None \<Rightarrow> return_ok params) (\<lambda>params.
        bind_prog
          (case map_of doc (VStr ''params'') of
             Some declared \<Rightarrow> lift_result (merge params declared)
           | None \<Rightarrow> return_ok params) (\<lambda>params.
        (case map_of doc (VStr ''body'') of
           Some body \<Rightarrow>
             bind_prog (serialize_schema n models (fst (body_model body))) (\<lambda>schema.
               lift_result (merge params (payload schema (snd (body_model body)))))
         | None \<Rightarrow> return_ok params))))"

text \<open>
  \<^verbatim>\<open>extract_resource_doc\<close>. \<^verbatim>\<open>doc\<close> is the \<^verbatim>\<open>__apidoc__\<close> of the class when the class has
  one (\<open>attached\<close>) and a new dictionary otherwise; every assignment to an item of an
  attached \<^verbatim>\<open>doc\<close> is an assignment to the attribute of the class.
\<close>

definition store_doc :: "bool \<Rightarrow> nat \<Rightarrow> dict \<Rightarrow> (unit, state) prog" where
  "store_doc attached rid doc =
     modify (\<lambda>s. if attached
                  then s\<lparr>resource_apidoc := setitem rid (VDict doc) (resource_apidoc s)\<rparr>
                  else s)"

definition extract_method_doc ::
  "nat \<Rightarrow> registry \<Rightarrow> method_impl \<Rightarrow> val \<Rightarrow> (val, registry) prog" where
  "extract_method_doc n models impl method_doc =
     bind_prog
       (lift_result
          (merge method_doc (case i_apidoc impl of None \<Rightarrow> VDict [] | Some d \<Rightarrow> d)))
       (\<lambda>method_doc.
          if method_doc = VBool False then return_ok method_doc
          else
            (case method_doc of
               VDict md \<Rightarrow>
                 bind_prog
                   (merge_params n models (VDict [])
                      (setitem (VStr ''docstring'') (parse_docstring (i_docstring impl)) md))
                   (\<lambda>params.
                      return_ok
                        (VDict (setitem (VStr ''params'') params
                                 (setitem (VStr ''docstring'')
                                    (parse_docstring (i_docstring impl)) md))))
             | _ \<Rightarrow> raise_err TypeError))"

fun extract_resource_doc_methods ::
  "nat \<Rightarrow> registry \<Rightarrow> bool \<Rightarrow> resource \<Rightarrow> string list \<Rightarrow> dict \<Rightarrow> (val, state) prog" where
  "extract_resource_doc_methods n models attached resource [] doc = return_ok (VDict doc)"
| "extract_resource_doc_methods n models attached resource (method # methods) doc =
     (case map_of (r_impls resource) method of
        None \<Rightarrow> raise_err AttributeError
      | Some impl \<Rightarrow>
          bind_prog
            (on_registry
               (extract_method_doc n models impl
                  (case map_of doc (VStr method) of None \<Rightarrow> VDict [] | Some md \<Rightarrow> md)))
            (\<lambda>method_doc.
               bind_prog (store_doc attached (r_apidoc resource) (setitem (VStr method) method_doc doc))
                 (\<lambda>_. extract_resource_doc_methods n models attached resource methods
                         (setitem (VStr method) method_doc doc))))"

definition resource_methods :: "resource \<Rightarrow> string list" where
  "resource_methods resource =
     map lower (case r_methods resource of None \<Rightarrow> [] | Some ms \<Rightarrow> ms)"

definition extract_resource_doc_from ::
  "nat \<Rightarrow> app \<Rightarrow> registry \<Rightarrow> bool \<Rightarrow> resource \<Rightarrow> string \<Rightarrow> dict \<Rightarrow> (val, state) prog" where
  "extract_resource_doc_from n ap models attached resource url doc =
     bind_prog
       (store_doc attached (r_apidoc resource) (setitem (VStr ''name'') (VStr (r_name resource)) doc))
       (\<lambda>_.
     bind_prog (lift_result (extract_path_params (url_map_converters ap) url)) (\<lambda>path_params.
     bind_prog
       (on_registry
          (merge_params n models (VDict path_params)
             (setitem (VStr ''name'') (VStr (r_name resource)) doc)))
       (\<lambda>params.
     bind_prog
       (store_doc attached (r_apidoc resource)
          (setitem (VStr ''params'') params
             (setitem (VStr ''name'') (VStr (r_name resource)) doc)))
       (\<lambda>_.
     extract_resource_doc_methods n models attached resource (resource_methods resource)
       (setitem (VStr ''params'') params
          (setitem (VStr ''name'') (VStr (r_name resource)) doc))))))"

definition extract_resource_doc ::
  "nat \<Rightarrow> app \<Rightarrow> registry \<Rightarrow> resource \<Rightarrow> string \<Rightarrow> (val, state) prog" where
  "extract_resource_doc n ap models resource url =
     (\<lambda>s. case map_of (resource_apidoc s) (r_apidoc resource) of
            None \<Rightarrow> extract_resource_doc_from n ap models False resource url [] s
          | Some (VBool False) \<Rightarrow> return_ok (VBool False) s
          | Some (VDict doc) \<Rightarrow> extract_resource_doc_from n ap models True resource url doc s
          | Some _ \<Rightarrow> raise_err TypeError s)"

section \<open>Responses\<close>

text \<open>\<^verbatim>\<open>responses[code]['schema'] = schema\<close>.\<close>

definition set_schema :: "val \<Rightarrow> val \<Rightarrow> dict \<Rightarrow> error + dict" where
  "set_schema code schema responses =
     (case map_of responses code of
        None \<Rightarrow> Inl KeyError
      | Some (VDict r) \<Rightarrow> Inr (setitem code (VDict (setitem (VStr ''schema'') schema r)) responses)
      | Some _ \<Rightarrow> Inl TypeError)"

text \<open>The loop of \<^verbatim>\<open>responses_for\<close> over the items of \<^verbatim>\<open>d['responses']\<close>.\<close>

definition response_entry :: "val \<Rightarrow> val \<Rightarrow> dict \<Rightarrow> error + dict" where
  "response_entry code description responses =
     (case map_of responses code of
        None \<Rightarrow> Inr (setitem code (VDict [(VStr ''description'', description)]) responses)
      | Some (VDict r) \<Rightarrow>
          Inr (setitem code (VDict (setitem (VStr ''description'') description r)) responses)
      | Some _ \<Rightarrow> Inl AttributeError)"

fun responses_declared ::
  "nat \<Rightarrow> registry \<Rightarrow> (val \<times> val) list \<Rightarrow> dict \<Rightarrow> (dict, registry) prog" where
  "responses_declared n models [] responses = return_ok responses"
| "responses_declared n models ((code, response) # rest) responses =
     bind_prog
       (lift_result (if is_string response then Inr (response, VNone) else unpack2 response))
       (\<lambda>dm.
     bind_prog
       (lift_result
          (response_entry code
             (if truthy (fst dm) then fst dm else VStr DEFAULT_RESPONSE_DESCRIPTION) responses))
       (\<lambda>responses.
     bind_prog
       (if truthy (snd dm) then
          bind_prog (serialize_schema n models (snd dm)) (\<lambda>schema.
            lift_result (set_schema code schema responses))
        else return_ok responses)
       (\<lambda>responses. responses_declared n models rest responses)))"

text \<open>The branch \<^verbatim>\<open>if 'model' in d\<close>.\<close>

definition responses_model :: "nat \<Rightarrow> registry \<Rightarrow> dict \<Rightarrow> dict \<Rightarrow> (dict, registry) prog" where
  "responses_model n models d responses =
     (case map_of d (VStr ''model'') of
        None \<Rightarrow> return_ok responses
      | Some model \<Rightarrow>
          (let code = VStr (py_str (case map_of d (VStr ''default_code'') of
                                      None \<Rightarrow> VInt 200 | Some c \<Rightarrow> c));
               responses = (if has_key responses code then responses
                            else setitem code (VDict DEFAULT_RESPONSE) responses)
           in bind_prog (serialize_schema n models model) (\<lambda>schema.
                lift_result (set_schema code schema responses))))"

text \<open>
  The branch \<^verbatim>\<open>if 'docstring' in d\<close>: for a documented exception, the first handler of
  that exception with a response code gives the entry. \<open>store\<close> holds the \<^verbatim>\<open>__apidoc__\<close> of
  the handlers.
\<close>

definition handler_code :: "(string \<times> val) list \<Rightarrow> string \<Rightarrow> error + val" where
  "handler_code store exception =
     bind_result (as_mapping (case map_of store exception of None \<Rightarrow> VDict [] | Some d \<Rightarrow> d))
       (\<lambda>apidoc.
          (case map_of apidoc (VStr ''responses'') of
             None \<Rightarrow> Inr VNone
           | Some error_responses \<Rightarrow>
               (if truthy error_responses then
                  (case error_responses of
                     VDict ((code, _) # _) \<Rightarrow> Inr code
                   | _ \<Rightarrow> Inl AttributeError)
                else Inr VNone)))"

fun responses_raise ::
  "(string \<times> val) list \<Rightarrow> val \<Rightarrow> string list \<Rightarrow> dict \<Rightarrow> error + dict" where
  "responses_raise store name [] responses = Inr responses"
| "responses_raise store name (exception # handlers) responses =
     (case handler_code store exception of
        Inl e \<Rightarrow> Inl e
      | Inr code \<Rightarrow>
          (if truthy code \<and> VStr exception = name then
             Inr (setitem code (VDict [(VStr ''$ref'', VStr (''#/responses/'' @ py_str name))])
                    responses)
           else responses_raise store name handlers responses))"

fun responses_raises ::
  "(string \<times> val) list \<Rightarrow> string list \<Rightarrow> (val \<times> val) list \<Rightarrow> dict \<Rightarrow> error + dict" where
  "responses_raises store handlers [] responses = Inr responses"
| "responses_raises store handlers ((name, description) # raises) responses =
     (case responses_raise store name handlers responses of
        Inl e \<Rightarrow> Inl e
      | Inr responses \<Rightarrow> responses_raises store handlers raises responses)"

text \<open>One round of the loop \<^verbatim>\<open>for d in doc, doc[method]\<close>.\<close>

definition responses_step :: "nat \<Rightarrow> api \<Rightarrow> dict \<Rightarrow> dict \<Rightarrow> (dict, state) prog" where
  "responses_step n a d responses =
     bind_prog
       (case map_of d (VStr ''responses'') of
          None \<Rightarrow> return_ok responses
        | Some declared \<Rightarrow>
            bind_prog (lift_result (as_mapping declared)) (\<lambda>items.
              on_registry (responses_declared n (api_models a) items responses)))
       (\<lambda>responses.
     bind_prog (on_registry (responses_model n (api_models a) d responses)) (\<lambda>responses.
       (case map_of d (VStr ''docstring'') of
          None \<Rightarrow> return_ok responses
        | Some ds \<Rightarrow>
            bind_prog (lift_result (bind_result (subscript ds (VStr ''raises'')) as_mapping))
              (\<lambda>raises.
            bind_prog get_state (\<lambda>s.
              lift_result
                (responses_raises (handler_apidoc s) (map fst (api_error_handlers a))
                   raises responses))))))"

definition responses_for :: "nat \<Rightarrow> api \<Rightarrow> dict \<Rightarrow> string \<Rightarrow> (dict, state) prog" where
  "responses_for n a doc method =
     bind_prog (lift_result (bind_result (getitem doc (VStr method)) as_mapping)) (\<lambda>method_doc.
     bind_prog (responses_step n a doc []) (\<lambda>responses.
     bind_prog (responses_step n a method_doc responses) (\<lambda>responses.
       return_ok (if responses = [] then [(VStr ''200'', VDict DEFAULT_RESPONSE)]
                  else responses))))"

section \<open>Operations\<close>

definition description_for :: "dict \<Rightarrow> string \<Rightarrow> error + val" where
  "description_for doc method =
     bind_result (bind_result (getitem doc (VStr method)) as_mapping) (\<lambda>method_doc.
     bind_result (bind_result (getitem method_doc (VStr ''docstring''))
                    (\<lambda>ds. subscript ds (VStr ''details''))) (\<lambda>details.
     bind_result
       (map_result (\<lambda>v. case v of VStr t \<Rightarrow> Inr t | _ \<Rightarrow> Inl TypeError)
          ((case map_of doc (VStr ''description'') of None \<Rightarrow> [] | Some x \<Rightarrow> [x])
           @ (case map_of method_doc (VStr ''description'') of None \<Rightarrow> [] | Some x \<Rightarrow> [x])
           @ (if truthy details then [details] else [])))
       (\<lambda>parts. Inr (VStr (strip (join [CHR 0x0A] parts))))))"

definition operation_id_for :: "api \<Rightarrow> dict \<Rightarrow> string \<Rightarrow> error + val" where
  "operation_id_for a doc method =
     bind_result (bind_result (getitem doc (VStr method)) as_mapping) (\<lambda>method_doc.
       (case map_of method_doc (VStr ''id'') of
          Some i \<Rightarrow> Inr i
        | None \<Rightarrow>
            bind_result (getitem doc (VStr ''name'')) (\<lambda>name.
              Inr (api_default_id a name method))))"

text \<open>
  The body of the loop of \<^verbatim>\<open>parameters_for\<close>. \<^verbatim>\<open>PY_TYPES.get(typ, typ)\<close> hashes the first
  element of a list of types.
\<close>

definition parameter_for :: "val \<times> val \<Rightarrow> error + val" where
  "parameter_for np =
     (case snd np of
        VDict param \<Rightarrow>
          (let param = setitem (VStr ''name'') (fst np) param;
               param = (if \<not> has_key param (VStr ''type'') \<and> \<not> has_key param (VStr ''schema'')
                        then setitem (VStr ''type'') (VStr ''string'') param else param);
               param = (if \<not> has_key param (VStr ''in'')
                        then setitem (VStr ''in'') (VStr ''query'') param else param)
           in if has_key param (VStr ''type'') \<and> \<not> has_key param (VStr ''schema'') then
                (case map_of param (VStr ''type'') of
                   Some ptype \<Rightarrow>
                     (case sequence_items ptype of
                        Some [] \<Rightarrow> Inl IndexError
                      | Some (typ # _) \<Rightarrow>
                          if hashable typ then
                            Inr (VDict
                                  (setitem (VStr ''items'')
                                     (VDict [(VStr ''type'',
                                              case PY_TYPES typ of
                                                Some t \<Rightarrow> VStr t | None \<Rightarrow> typ)])
                                     (setitem (VStr ''type'') (VStr ''array'') param)))
                          else Inl TypeError
                      | None \<Rightarrow>
                          (case PY_TYPES ptype of
                             Some t \<Rightarrow> Inr (VDict (setitem (VStr ''type'') (VStr t) param))
                           | None \<Rightarrow> Inr (VDict param)))
                 | None \<Rightarrow> Inr (VDict param))
              else Inr (VDict param))
      | _ \<Rightarrow> Inl TypeError)"

definition mask_param :: "app \<Rightarrow> val \<Rightarrow> val" where
  "mask_param ap fields_mask =
     VDict ([(VStr ''name'', config_RESTPLUS_MASK_HEADER ap),
             (VStr ''in'', VStr ''header''),
             (VStr ''type'', VStr ''string''),
             (VStr ''format'', VStr ''mask''),
             (VStr ''description'', VStr ''An optional fields mask'')]
            @ (if is_string fields_mask then [(VStr ''default'', fields_mask)] else []))"

definition dict_get :: "dict \<Rightarrow> val \<Rightarrow> val" where
  "dict_get d k = (case map_of d k of None \<Rightarrow> VNone | Some v \<Rightarrow> v)"

definition parameters_for :: "app \<Rightarrow> dict \<Rightarrow> string \<Rightarrow> error + val list" where
  "parameters_for ap doc method =
     bind_result (getitem doc (VStr ''params'')) (\<lambda>doc_params.
     bind_result (bind_result (getitem doc (VStr method)) as_mapping) (\<lambda>method_doc.
     bind_result (getitem method_doc (VStr ''params'')) (\<lambda>method_params.
     bind_result (merge doc_params method_params) (\<lambda>merged.
     bind_result (case merged of VDict items \<Rightarrow> Inr items | _ \<Rightarrow> Inl AttributeError) (\<lambda>items.
     bind_result (map_result parameter_for items) (\<lambda>params.
       (let fields_mask = (if truthy (dict_get doc (VStr ''__mask__'')) then dict_get doc (VStr ''__mask__'')
                    else dict_get method_doc (VStr ''__mask__''))
        in if truthy fields_mask \<and> truthy (config_RESTPLUS_MASK_SWAGGER ap)
           then Inr (params @ [mask_param ap fields_mask]) else Inr params)))))))"

definition security_for :: "dict \<Rightarrow> string \<Rightarrow> error + val" where
  "security_for doc method =
     bind_result (bind_result (getitem doc (VStr method)) as_mapping) (\<lambda>method_doc.
       (let security = (case map_of doc (VStr ''security'') of
                          None \<Rightarrow> VNone | Some auth \<Rightarrow> security_requirements auth)
        in Inr (case map_of method_doc (VStr ''security'') of
                  None \<Rightarrow> security | Some auth \<Rightarrow> security_requirements auth)))"

text \<open>\<^verbatim>\<open>any(p[key] == value for p in params)\<close>, which stops at the first hit.\<close>

fun any_item :: "val \<Rightarrow> val \<Rightarrow> val list \<Rightarrow> error + bool" where
  "any_item key value [] = Inr False"
| "any_item key value (p # ps) =
     (case subscript p key of
        Inl e \<Rightarrow> Inl e
      | Inr v \<Rightarrow> if v = value then Inr True else any_item key value ps)"

definition operation_consumes :: "val list \<Rightarrow> dict \<Rightarrow> error + dict" where
  "operation_consumes params operation =
     (if params = [] then Inr operation
      else
        bind_result (any_item (VStr ''in'') (VStr ''formData'') params) (\<lambda>form.
          if form then
            bind_result (any_item (VStr ''type'') (VStr ''file'') params) (\<lambda>file.
              Inr (setitem (VStr ''consumes'')
                     (if file then VList [VStr ''multipart/form-data'']
                      else VList [VStr ''application/x-www-form-urlencoded'',
                                  VStr ''multipart/form-data''])
                     operation))
          else Inr operation))"

definition serialize_operation :: "nat \<Rightarrow> app \<Rightarrow> api \<Rightarrow> dict \<Rightarrow> string \<Rightarrow> (dict, state) prog" where
  "serialize_operation n ap a doc method =
     bind_prog (responses_for n a doc method) (\<lambda>responses.
     lift_result
       (bind_result (bind_result (getitem doc (VStr method)) as_mapping) (\<lambda>method_doc.
        bind_result (bind_result (getitem method_doc (VStr ''docstring''))
                       (\<lambda>ds. subscript ds (VStr ''summary''))) (\<lambda>summary.
        bind_result (description_for doc method) (\<lambda>description.
        bind_result (operation_id_for a doc method) (\<lambda>operation_id.
        bind_result (parameters_for ap doc method) (\<lambda>params.
        bind_result (security_for doc method) (\<lambda>security.
        bind_result
          (operation_consumes params
             ((if truthy (dict_get doc (VStr ''deprecated''))
                  \<or> truthy (dict_get method_doc (VStr ''deprecated''))
               then setitem (VStr ''deprecated'') (VBool True) else id)
                [(VStr ''responses'', or_none (VDict responses)),
                 (VStr ''summary'', summary),
                 (VStr ''description'', or_none description),
                 (VStr ''operationId'', operation_id),
                 (VStr ''parameters'', or_none (VList params)),
                 (VStr ''security'', security)]))
          (\<lambda>operation. Inr (not_none operation))))))))))"

section \<open>Resources\<close>

fun serialize_resource_methods ::
  "nat \<Rightarrow> app \<Rightarrow> api \<Rightarrow> namespace \<Rightarrow> dict \<Rightarrow> string list \<Rightarrow> dict \<Rightarrow> (val, state) prog" where
  "serialize_resource_methods n ap a ns doc [] operations = return_ok (VDict operations)"
| "serialize_resource_methods n ap a ns doc (method # methods) operations =
     bind_prog (lift_result (getitem doc (VStr method))) (\<lambda>method_doc.
       if method_doc = VBool False
       then serialize_resource_methods n ap a ns doc methods operations
       else
         bind_prog (serialize_operation n ap a doc method) (\<lambda>operation.
           serialize_resource_methods n ap a ns doc methods
             (setitem (VStr method)
                (VDict (setitem (VStr ''tags'') (VList [VStr (ns_name ns)]) operation))
                operations)))"

definition serialize_resource ::
  "nat \<Rightarrow> app \<Rightarrow> api \<Rightarrow> namespace \<Rightarrow> resource \<Rightarrow> string \<Rightarrow> (val, state) prog" where
  "serialize_resource n ap a ns resource url =
     bind_prog (extract_resource_doc n ap (api_models a) resource url) (\<lambda>doc.
       if doc = VBool False then return_ok VNone
       else
         (case doc of
            VDict d \<Rightarrow> serialize_resource_methods n ap a ns d (resource_methods resource) []
          | _ \<Rightarrow> raise_err TypeError))"

section \<open>Error handlers\<close>

text \<open>
  \<^verbatim>\<open>register_errors\<close>. \<^verbatim>\<open>_param_to_header\<close> works on the parameter object of the handler's
  \<^verbatim>\<open>__apidoc__\<close> itself: what it deletes and sets there is written to the state.
\<close>

definition update_handler_param :: "string \<Rightarrow> val \<Rightarrow> dict \<Rightarrow> state \<Rightarrow> state" where
  "update_handler_param exception name param s =
     (case map_of (handler_apidoc s) exception of
        Some (VDict apidoc) \<Rightarrow>
          (case map_of apidoc (VStr ''params'') of
             Some (VDict params) \<Rightarrow>
               s\<lparr>handler_apidoc :=
                    setitem exception
                      (VDict (setitem (VStr ''params'')
                                (VDict (setitem name (VDict param) params)) apidoc))
                      (handler_apidoc s)\<rparr>
           | _ \<Rightarrow> s)
      | _ \<Rightarrow> s)"

fun error_headers :: "string \<Rightarrow> (val \<times> val) list \<Rightarrow> dict \<Rightarrow> (dict, state) prog" where
  "error_headers exception [] headers = return_ok headers"
| "error_headers exception ((name, param) # rest) headers =
     (case param of
        VDict p \<Rightarrow>
          (if dict_get p (VStr ''in'') = VStr ''header'' then
             bind_prog
               (modify (update_handler_param exception name (AList.delete (VStr ''in'') p)))
               (\<lambda>_.
             bind_prog (lift_result (param_to_header p)) (\<lambda>header.
             bind_prog (modify (update_handler_param exception name header)) (\<lambda>_.
               error_headers exception rest (setitem name (VDict header) headers))))
           else error_headers exception rest headers)
      | _ \<Rightarrow> raise_err AttributeError)"

definition first_response_model :: "val \<Rightarrow> error + val" where
  "first_response_model declared =
     bind_result (as_mapping declared) (\<lambda>items.
       (case items of
          [] \<Rightarrow> Inl IndexError
        | (_, response) # _ \<Rightarrow> bind_result (unpack2 response) (\<lambda>dm. Inr (snd dm))))"

definition register_error :: "nat \<Rightarrow> api \<Rightarrow> string \<Rightarrow> docstring \<Rightarrow> (val, state) prog" where
  "register_error n a exception ds =
     bind_prog (lift_result (subscript (parse_docstring ds) (VStr ''summary''))) (\<lambda>summary.
     bind_prog get_state (\<lambda>s.
     bind_prog
       (lift_result
          (as_mapping (case map_of (handler_apidoc s) exception of
                         None \<Rightarrow> VDict [] | Some d \<Rightarrow> d)))
       (\<lambda>apidoc.
     bind_prog
       (case map_of apidoc (VStr ''params'') of
          None \<Rightarrow> return_ok [(VStr ''description'', summary)]
        | Some params \<Rightarrow>
            bind_prog (lift_result (as_mapping params)) (\<lambda>items.
            bind_prog (error_headers exception items []) (\<lambda>headers.
              return_ok [(VStr ''description'', summary), (VStr ''headers'', VDict headers)])))
       (\<lambda>response.
     bind_prog
       (case map_of apidoc (VStr ''responses'') of
          None \<Rightarrow> return_ok response
        | Some declared \<Rightarrow>
            bind_prog (lift_result (first_response_model declared)) (\<lambda>model.
            bind_prog (on_registry (serialize_schema n (api_models a) model)) (\<lambda>schema.
              return_ok (setitem (VStr ''schema'') schema response))))
       (\<lambda>response. return_ok (VDict (not_none response)))))))"

fun register_errors_loop ::
  "nat \<Rightarrow> api \<Rightarrow> (string \<times> docstring) list \<Rightarrow> dict \<Rightarrow> (dict, state) prog" where
  "register_errors_loop n a [] responses = return_ok responses"
| "register_errors_loop n a ((exception, ds) # handlers) responses =
     bind_prog (register_error n a exception ds) (\<lambda>response.
       register_errors_loop n a handlers (setitem (VStr exception) response responses))"

definition register_errors :: "nat \<Rightarrow> api \<Rightarrow> (dict, state) prog" where
  "register_errors n a = register_errors_loop n a (api_error_handlers a) []"

section \<open>The specification document\<close>

definition api_infos :: "api \<Rightarrow> dict" where
  "api_infos a =
     [(VStr ''title'', deref (api_title a)), (VStr ''version'', deref (api_version a))]
     @ (if truthy (api_description a)
        then [(VStr ''description'', deref (api_description a))] else [])
     @ (if truthy (api_terms_url a)
        then [(VStr ''termsOfService'', deref (api_terms_url a))] else [])
     @ (if truthy (api_contact a) \<and> (truthy (api_contact_email a) \<or> truthy (api_contact_url a))
        then [(VStr ''contact'',
               VDict [(VStr ''name'', deref (api_contact a)),
                      (VStr ''email'', deref (api_contact_email a)),
                      (VStr ''url'', deref (api_contact_url a))])]
        else [])
     @ (if truthy (api_license a)
        then [(VStr ''license'',
               VDict ([(VStr ''name'', deref (api_license a))]
                      @ (if truthy (api_license_url a)
                         then [(VStr ''url'', deref (api_license_url a))] else [])))]
        else [])"

definition api_basepath :: "api \<Rightarrow> string" where
  "api_basepath a =
     (let basepath = api_base_path a
      in if length basepath > 1 \<and> last basepath = CHR ''/'' then butlast basepath
         else basepath)"

text \<open>The three loops of \<^verbatim>\<open>as_dict\<close> that fill \<^verbatim>\<open>paths\<close>.\<close>

fun serialize_urls ::
  "nat \<Rightarrow> app \<Rightarrow> api \<Rightarrow> namespace \<Rightarrow> resource \<Rightarrow> string list \<Rightarrow> (string \<times> val) list
   \<Rightarrow> ((string \<times> val) list, state) prog" where
  "serialize_urls n ap a ns resource [] paths = return_ok paths"
| "serialize_urls n ap a ns resource (url # urls) paths =
     bind_prog (serialize_resource n ap a ns resource url) (\<lambda>operations.
       serialize_urls n ap a ns resource urls (setitem (extract_path url) operations paths))"

fun serialize_resources ::
  "nat \<Rightarrow> app \<Rightarrow> api \<Rightarrow> namespace \<Rightarrow> (resource \<times> string list) list \<Rightarrow> (string \<times> val) list
   \<Rightarrow> ((string \<times> val) list, state) prog" where
  "serialize_resources n ap a ns [] paths = return_ok paths"
| "serialize_resources n ap a ns ((resource, urls) # rest) paths =
     bind_prog (serialize_urls n ap a ns resource urls paths) (\<lambda>paths.
       serialize_resources n ap a ns rest paths)"

fun serialize_namespaces ::
  "nat \<Rightarrow> app \<Rightarrow> api \<Rightarrow> namespace list \<Rightarrow> (string \<times> val) list
   \<Rightarrow> ((string \<times> val) list, state) prog" where
  "serialize_namespaces n ap a [] paths = return_ok paths"
| "serialize_namespaces n ap a (ns # rest) paths =
     bind_prog (serialize_resources n ap a ns (ns_resources ns) paths) (\<lambda>paths.
       serialize_namespaces n ap a rest paths)"

text \<open>The dictionary \<^verbatim>\<open>specs\<close> that \<^verbatim>\<open>as_dict\<close> hands to \<^verbatim>\<open>not_none\<close>.\<close>

definition specs_dict ::
  "api \<Rightarrow> (string \<times> val) list \<Rightarrow> val \<Rightarrow> dict \<Rightarrow> dict \<Rightarrow> val \<Rightarrow> dict" where
  "specs_dict a paths tags definitions responses host =
     [(VStr ''swagger'', VStr ''2.0''),
      (VStr ''basePath'', VStr (api_basepath a)),
      (VStr ''paths'', VDict (map (\<lambda>(k, v). (VStr k, v)) (not_none_sorted paths))),
      (VStr ''info'', VDict (api_infos a)),
      (VStr ''produces'', VList (api_representations a)),
      (VStr ''consumes'', VList [VStr ''application/json'']),
      (VStr ''securityDefinitions'', or_none (api_authorizations a)),
      (VStr ''security'', or_none (security_requirements (api_security a))),
      (VStr ''tags'', tags),
      (VStr ''definitions'', or_none (VDict definitions)),
      (VStr ''responses'', or_none (VDict responses)),
      (VStr ''host'', host)]"

definition as_dict :: "nat \<Rightarrow> app \<Rightarrow> api \<Rightarrow> (dict, state) prog" where
  "as_dict n ap a =
     bind_prog (lift_result (extract_tags a)) (\<lambda>tags.
     bind_prog (register_errors n a) (\<lambda>responses.
     bind_prog (serialize_namespaces n ap a (api_namespaces a) []) (\<lambda>paths.
     bind_prog get_state (\<lambda>s.
     bind_prog (lift_result (serialize_definitions (registered_models s))) (\<lambda>definitions.
     bind_prog (lift_result (get_host ap a)) (\<lambda>host.
       return_ok (not_none (specs_dict a paths tags definitions responses host))))))))"

section \<open>Notions used in the statements\<close>

text \<open>
  A program keeps an invariant of the state when every state it leaves satisfies it,
  whether it returns, raises or runs out of fuel; it raises only errors of a kind when
  every error it raises is of that kind.
\<close>

definition preserves :: "('s \<Rightarrow> bool) \<Rightarrow> ('a, 's) prog \<Rightarrow> bool" where
  "preserves I m = (\<forall>s. I s \<longrightarrow> I (snd (m s)))"


text \<open>Every entry of the registry is the entry of \<^verbatim>\<open>api.models\<close> under the same name.\<close>

definition registry_inv :: "registry \<Rightarrow> registry \<Rightarrow> bool" where
  "registry_inv models reg = (\<forall>(k, v) \<in> set reg. map_of models k = Some v)"

definition state_inv :: "registry \<Rightarrow> state \<Rightarrow> bool" where
  "state_inv models s = registry_inv models (registered_models s)"



text \<open>
  A call of one of the three methods on a \<^verbatim>\<open>Swagger\<close> object, with the fuel it gets, and
  the state it leaves, whatever its outcome.
\<close>

datatype call = RegisterModel val | SerializeSchema val | AsDict

fun run_call :: "app \<Rightarrow> api \<Rightarrow> nat \<times> call \<Rightarrow> state \<Rightarrow> state" where
  "run_call ap a (n, RegisterModel m) s = snd (on_registry (register_model n (api_models a) m) s)"
| "run_call ap a (n, SerializeSchema m) s =
     snd (on_registry (serialize_schema n (api_models a) m) s)"
| "run_call ap a (n, AsDict) s = snd (as_dict n ap a s)"

definition run_calls :: "app \<Rightarrow> api \<Rightarrow> (nat \<times> call) list \<Rightarrow> state \<Rightarrow> state" where
  "run_calls ap a calls s = fold (run_call ap a) calls s"

section \<open>An example API\<close>

definition example_models :: registry where
  "example_models =
     [(VStr ''Person'',
       SModel \<lparr>m_parent = None,
               m_fields = [(''name'', RawField),
                           (''address'',
                            Nested (VModel ''Address'' (VDict [(VStr ''type'', VStr ''object'')])
                                      [(VStr ''street'', VField (VDict []))])),
                           (''pets'', ListField (Nested (VStr ''Pet'')))],
               m_schema = VDict [(VStr ''type'', VStr ''object'')]\<rparr>),
      (VStr ''Address'',
       SModel \<lparr>m_parent = None, m_fields = [(''street'', RawField)],
               m_schema = VDict [(VStr ''type'', VStr ''object'')]\<rparr>),
      (VStr ''Pet'',
       SModel \<lparr>m_parent = Some (VStr ''Animal''), m_fields = [],
               m_schema = VDict [(VStr ''allOf'', VList [])]\<rparr>),
      (VStr ''Animal'',
       SModel \<lparr>m_parent = None, m_fields = [(''legs'', RawField)],
               m_schema = VDict [(VStr ''type'', VStr ''object'')]\<rparr>)]"

definition example_docstring :: docstring where
  "example_docstring =
     \<lparr>doc_raw = VStr ''List the persons.'', doc_summary = VStr ''List the persons'',
      doc_details = VStr [], doc_raises = []\<rparr>"

definition example_resource :: resource where
  "example_resource =
     \<lparr>r_apidoc = 0, r_name = ''Persons'', r_methods = Some [''GET''],
      r_impls = [(''get'', \<lparr>i_apidoc = None, i_docstring = example_docstring\<rparr>)]\<rparr>"

definition example_api :: api where
  "example_api =
     \<lparr>api_base_path = ''/api/'', api_title = VStr ''API'', api_version = VStr ''1.0'',
      api_description = VNone, api_terms_url = VNone, api_contact = VNone,
      api_contact_email = VNone, api_contact_url = VNone, api_license = VNone,
      api_license_url = VNone, api_tags = [],
      api_namespaces = [\<lparr>ns_name = ''default'', ns_description = VStr ''Default namespace'',
                          ns_resources = [(example_resource, [''/persons/<int:id>''])]\<rparr>],
      api_representations = [VStr ''application/json''],
      api_authorizations = VNone, api_security = VNone,
      api_models = example_models, api_error_handlers = [], api_blueprint = None,
      api_default_id = (\<lambda>name method. VStr (method @ ''_'' @ py_str name))\<rparr>"

definition example_app :: app where
  "example_app =
     \<lparr>config_SERVER_NAME = None, config_RESTPLUS_MASK_SWAGGER = VBool True,
      config_RESTPLUS_MASK_HEADER = VStr ''X-Fields'', url_map_converters = [''path'', ''uuid'']\<rparr>"

definition example_state :: state where
  "example_state =
     \<lparr>registered_models = [],
      resource_apidoc = [(0, VDict [(VStr ''body'', VStr ''Person'')])],
      handler_apidoc = []\<rparr>"

text \<open>
  The type that the specification gives a path parameter, by the text that stands
  before the colon of its segment; a segment is supported when it splits into that text
  and a name and the text has a type. \<open>segment_param\<close> is the entry that a supported
  segment stands for. \<open>default_converters\<close> are the names under which the host's URL
  map registers its converters when the application adds none.
\<close>

definition claimed_path_type :: "string list \<Rightarrow> string option \<Rightarrow> string option" where
  "claimed_path_type converters descriptor =
     (if descriptor = Some ''int'' then Some ''integer''
      else if descriptor = Some ''float'' then Some ''number''
      else if descriptor = Some ''string'' \<or> descriptor = None then Some ''string''
      else if descriptor \<in> Some ` set converters then Some ''string''
      else None)"

definition supported_segment :: "string list \<Rightarrow> string \<Rightarrow> bool" where
  "supported_segment converters m =
     (case split_match m of
        Inl _ \<Rightarrow> False
      | Inr (d, n) \<Rightarrow> claimed_path_type converters d \<noteq> None)"

definition segment_name :: "string \<Rightarrow> string" where
  "segment_name m = (case split_match m of Inr (d, n) \<Rightarrow> n | Inl _ \<Rightarrow> m)"

definition segment_param :: "string list \<Rightarrow> string \<Rightarrow> val \<times> val" where
  "segment_param converters m =
     (case split_match m of
        Inr (d, n) \<Rightarrow>
          (VStr n,
           VDict [(VStr ''name'', VStr n), (VStr ''in'', VStr ''path''),
                  (VStr ''required'', VBool True),
                  (VStr ''type'',
                   VStr (case claimed_path_type converters d of Some t \<Rightarrow> t | None \<Rightarrow> []))])
      | Inl _ \<Rightarrow> (VStr m, VNone))"

definition default_converters :: "string list" where
  "default_converters =
     [''default'', ''string'', ''any'', ''path'', ''int'', ''float'', ''uuid'']"

text \<open>
  The locations (\<^verbatim>\<open>in\<close>) of the parameters derived from the arguments of a parser that
  are no cookies, and whether every such argument yields a parameter: it does not when
  its location cannot be hashed, when \<^verbatim>\<open>_handle_arg_type\<close> or the \<^verbatim>\<open>append\<close> branch raises,
  or when the \<^verbatim>\<open>in\<close> that a \<^verbatim>\<open>__schema__\<close> has given the parameter cannot be hashed.
  \<open>derived_params\<close> is the mapping from the name of each such argument to its
  parameter, a later argument replacing an earlier one of the same name.
\<close>

definition param_location :: "arg \<Rightarrow> val list" where
  "param_location a =
     (case arg_to_param a of
        Inr param \<Rightarrow> (case map_of param (VStr ''in'') of Some l \<Rightarrow> [l] | None \<Rightarrow> [])
      | Inl _ \<Rightarrow> [])"

definition param_locations :: "arg list \<Rightarrow> val set" where
  "param_locations args =
     set (concat (map param_location (filter (\<lambda>a. arg_location a \<noteq> VStr ''cookie'') args)))"

definition yields_param :: "arg \<Rightarrow> bool" where
  "yields_param a =
     (case arg_to_param a of
        Inr param \<Rightarrow> (case map_of param (VStr ''in'') of Some l \<Rightarrow> hashable l | None \<Rightarrow> False)
      | Inl _ \<Rightarrow> False)"

definition yields_params :: "arg list \<Rightarrow> bool" where
  "yields_params args =
     list_all (\<lambda>a. arg_location a = VStr ''cookie'' \<or> yields_param a) args"

definition add_param :: "arg \<Rightarrow> dict \<Rightarrow> dict" where
  "add_param a params =
     (case arg_to_param a of
        Inr param \<Rightarrow> setitem (VStr (arg_name a)) (VDict param) params
      | Inl _ \<Rightarrow> params)"

definition derived_params :: "arg list \<Rightarrow> dict" where
  "derived_params args =
     fold add_param (filter (\<lambda>a. arg_location a \<noteq> VStr ''cookie'') args) []"

definition list_location_arg :: arg where
  "list_location_arg =
     Arg ''token'' (VList [VStr ''headers'', VStr ''values''])
       (ArgType (VType PyStr) None None) False VNone VNone (VStr ''store'') VNone"

definition schema_only_arg :: arg where
  "schema_only_arg =
     Arg ''since'' (VStr ''args'')
       (ArgType (VType (PyClass ''date'')) None (Some (VDict [(VStr ''format'', VStr ''date'')])))
       False VNone VNone (VStr ''append'') VNone"

definition json_arg :: arg where
  "json_arg =
     Arg ''payload'' (VStr ''json'') (ArgType (VType PyStr) None None) True VNone VNone
       (VStr ''store'') VNone"

definition file_arg :: arg where
  "file_arg =
     Arg ''upload'' (VStr ''files'') (ArgType (VType (PyClass ''FileStorage'')) None None) False
       (VStr ''a file'') VNone (VStr ''store'') VNone"

text \<open>
  A documented exception applies to a name when a handler of the exception of that name
  has a response code (or its \<^verbatim>\<open>__apidoc__\<close> cannot be read). Nothing is declared in a doc
  when it has no response code, no model and no documented exception that applies.
\<close>

definition exception_applies :: "(string \<times> val) list \<Rightarrow> val \<Rightarrow> string \<Rightarrow> bool" where
  "exception_applies store name exception =
     (case handler_code store exception of
        Inr code \<Rightarrow> truthy code \<and> VStr exception = name
      | Inl _ \<Rightarrow> True)"

definition nothing_declared :: "(string \<times> val) list \<Rightarrow> string list \<Rightarrow> dict \<Rightarrow> bool" where
  "nothing_declared store handlers d =
     ((case map_of d (VStr ''responses'') of None \<Rightarrow> True | Some r \<Rightarrow> r = VDict [])
      \<and> map_of d (VStr ''model'') = None
      \<and> (case map_of d (VStr ''docstring'') of
            None \<Rightarrow> True
          | Some ds \<Rightarrow>
              (case subscript ds (VStr ''raises'') of
                 Inr (VDict raises) \<Rightarrow>
                   list_all (\<lambda>r. list_all (\<lambda>e. \<not> exception_applies store (fst r) e) handlers)
                     raises
               | _ \<Rightarrow> False)))"

definition plain_method_doc :: dict where
  "plain_method_doc =
     [(VStr ''docstring'',
       parse_docstring \<lparr>doc_raw = VStr ''Get it.'', doc_summary = VStr ''Get it'',
                         doc_details = VStr [], doc_raises = [(''NotFound'', ''no such thing'')]\<rparr>),
      (VStr ''params'', VDict [])]"

definition plain_doc :: dict where
  "plain_doc =
     [(VStr ''name'', VStr ''Things''), (VStr ''params'', VDict []),
      (VStr ''get'', VDict plain_method_doc)]"

definition conflict_state :: state where
  "conflict_state =
     \<lparr>registered_models = [], resource_apidoc = [],
      handler_apidoc =
        [(''Conflict'',
          VDict [(VStr ''responses'',
                  VDict [(VInt 409, VList [VStr ''Conflict'', VNone])])])]\<rparr>"

definition conflict_api :: api where
  "conflict_api = example_api\<lparr>api_error_handlers := [(''Conflict'', example_docstring)]\<rparr>"

text \<open>
  What \<^verbatim>\<open>merge\<close> leaves under a key that its second argument has: the value of the second
  argument, merged onto the value of the first when both are mappings. \<open>later_wins\<close> is
  the entry that an earlier and a later source leave under a key, each with an entry
  under it or none: the entry of the later source where it has one, except that two
  mappings are merged, the later onto the earlier.
\<close>

definition merged_value :: "val option \<Rightarrow> val \<Rightarrow> val" where
  "merged_value old new =
     (case (old, new) of
        (Some (VDict d), VDict e) \<Rightarrow> VDict (merge_items d e)
      | _ \<Rightarrow> new)"

definition later_wins :: "val option \<Rightarrow> val option \<Rightarrow> val option" where
  "later_wins earlier later =
     (case later of
        None \<Rightarrow> earlier
      | Some v \<Rightarrow>
          (case (earlier, v) of
             (Some (VDict d), VDict e) \<Rightarrow> Some (VDict (merge_items d e))
           | _ \<Rightarrow> Some v))"

text \<open>
  The sources of the parameters of a doc, each the empty mapping when the doc lacks its
  key: the \<^verbatim>\<open>__apidoc__\<close> that \<^verbatim>\<open>getattr\<close> gives for a resource (a new dictionary when the
  class has none), the parameters derived from its \<^verbatim>\<open>parser\<close>, its declared \<^verbatim>\<open>params\<close> (a
  dictionary, with keys that differ from each other), and the \<^verbatim>\<open>payload\<close> parameter of its
  \<^verbatim>\<open>body\<close>, with the schema that \<^verbatim>\<open>serialize_schema\<close> returns for the model from the registry
  \<open>reg\<close>. \<open>merged_in_order\<close>: under every key, \<open>merged\<close> has what the four sources leave,
  each merged onto those before it.
\<close>

definition class_doc :: "state \<Rightarrow> resource \<Rightarrow> dict" where
  "class_doc s r =
     (case map_of (resource_apidoc s) (r_apidoc r) of Some (VDict d) \<Rightarrow> d | _ \<Rightarrow> [])"

definition parsed_params :: "dict \<Rightarrow> dict option" where
  "parsed_params doc =
     (case map_of doc (VStr ''parser'') of
        None \<Rightarrow> Some []
      | Some (VParser args) \<Rightarrow>
          (case parser_to_params args of Inr parsed \<Rightarrow> Some parsed | Inl _ \<Rightarrow> None)
      | Some _ \<Rightarrow> None)"

definition declared_params :: "dict \<Rightarrow> dict option" where
  "declared_params doc =
     (case map_of doc (VStr ''params'') of
        None \<Rightarrow> Some []
      | Some (VDict declared) \<Rightarrow> if distinct (map fst declared) then Some declared else None
      | Some _ \<Rightarrow> None)"

definition body_params :: "nat \<Rightarrow> registry \<Rightarrow> registry \<Rightarrow> dict \<Rightarrow> dict option" where
  "body_params n models reg doc =
     (case map_of doc (VStr ''body'') of
        None \<Rightarrow> Some []
      | Some body \<Rightarrow>
          (case fst (serialize_schema n models (fst (body_model body)) reg) of
             Some (Inr schema) \<Rightarrow>
               Some [(VStr ''payload'',
                      VDict ([(VStr ''name'', VStr ''payload''), (VStr ''required'', VBool True),
                              (VStr ''in'', VStr ''body'')]
                             @ (if schema = VNone then [] else [(VStr ''schema'', schema)])
                             @ (if snd (body_model body) = VNone then []
                                else [(VStr ''description'', snd (body_model body))])))]
           | _ \<Rightarrow> None))"

definition merged_in_order :: "dict \<Rightarrow> dict \<Rightarrow> dict \<Rightarrow> dict \<Rightarrow> dict \<Rightarrow> bool" where
  "merged_in_order merged first parsed declared body =
     (\<forall>key. map_of merged key =
        later_wins
          (later_wins (later_wins (map_of first key) (map_of parsed key)) (map_of declared key))
          (map_of body key))"

definition doc_params :: "(error + val) option \<Rightarrow> val option" where
  "doc_params r =
     (case r of Some (Inr (VDict doc)) \<Rightarrow> map_of doc (VStr ''params'') | _ \<Rightarrow> None)"

text \<open>
  A resource that describes the parameter of its path, and one whose \<^verbatim>\<open>__apidoc__\<close> has a
  parser, declared parameters and a body, with the parameters of its doc; a method that
  declares a parameter.
\<close>

definition described :: resource where
  "described =
     \<lparr>r_apidoc = 2, r_name = ''Person'', r_methods = Some [''GET''],
      r_impls = [(''get'', \<lparr>i_apidoc = None, i_docstring = example_docstring\<rparr>)]\<rparr>"

definition described_state :: state where
  "described_state =
     \<lparr>registered_models = [],
      resource_apidoc =
        [(2, VDict [(VStr ''params'',
                     VDict [(VStr ''id'', VDict [(VStr ''description'', VStr ''The id'')])])])],
      handler_apidoc = []\<rparr>"

definition documented :: dict where
  "documented =
     [(VStr ''parser'',
       VParser [Arg ''q'' (VStr ''args'') (ArgType (VType PyInt) None None) False VNone VNone
                  (VStr ''store'') VNone]),
      (VStr ''params'',
       VDict [(VStr ''id'', VDict [(VStr ''description'', VStr ''The id'')]),
              (VStr ''q'', VDict [(VStr ''type'', VStr ''string'')])]),
      (VStr ''body'', VStr ''Address'')]"

definition documented_state :: state where
  "documented_state =
     \<lparr>registered_models = [], resource_apidoc = [(2, VDict documented)], handler_apidoc = []\<rparr>"

definition merged_example :: val where
  "merged_example =
     VDict [(VStr ''id'',
             VDict [(VStr ''name'', VStr ''id''), (VStr ''in'', VStr ''path''),
                    (VStr ''required'', VBool True), (VStr ''type'', VStr ''integer''),
                    (VStr ''description'', VStr ''The id'')]),
            (VStr ''q'', VDict [(VStr ''in'', VStr ''query''), (VStr ''type'', VStr ''string'')]),
            (VStr ''payload'',
             VDict [(VStr ''name'', VStr ''payload''), (VStr ''required'', VBool True),
                    (VStr ''in'', VStr ''body''),
                    (VStr ''schema'', VDict [(VStr ''$ref'', VStr ''#/definitions/Address'')])])]"

definition limited_impl :: method_impl where
  "limited_impl =
     \<lparr>i_apidoc = Some (VDict [(VStr ''params'',
                               VDict [(VStr ''limit'', VDict [(VStr ''type'', VType PyInt)])])]),
      i_docstring = example_docstring\<rparr>"

text \<open>
  The keys of its \<^verbatim>\<open>doc\<close> that \<^verbatim>\<open>extract_resource_doc\<close> assigns; two dictionaries that agree
  under every other key; a state that differs from \<open>s0\<close> at most in the registry and,
  under the keys \<open>K\<close>, in the \<^verbatim>\<open>__apidoc__\<close> of the resource \<open>rid\<close>, which was \<open>d\<close>; a state that
  differs from \<open>s0\<close> at most in the registry.
\<close>

definition doc_keys_written :: "resource \<Rightarrow> val set" where
  "doc_keys_written r = {VStr ''name'', VStr ''params''} \<union> VStr ` set (resource_methods r)"

definition agrees_off :: "val set \<Rightarrow> dict \<Rightarrow> dict \<Rightarrow> bool" where
  "agrees_off K d' d = (\<forall>k. k \<notin> K \<longrightarrow> map_of d' k = map_of d k)"

definition attached_frame :: "state \<Rightarrow> nat \<Rightarrow> val set \<Rightarrow> dict \<Rightarrow> state \<Rightarrow> bool" where
  "attached_frame s0 rid K d s =
     (handler_apidoc s = handler_apidoc s0
      \<and> (\<forall>i. i \<noteq> rid \<longrightarrow> map_of (resource_apidoc s) i = map_of (resource_apidoc s0) i)
      \<and> (\<exists>d'. map_of (resource_apidoc s) rid = Some (VDict d') \<and> agrees_off K d' d))"

definition untouched :: "state \<Rightarrow> state \<Rightarrow> bool" where
  "untouched s0 s =
     (handler_apidoc s = handler_apidoc s0 \<and> resource_apidoc s = resource_apidoc s0)"

definition example_apidoc_after :: val where
  "example_apidoc_after =
     VDict [(VStr ''body'', VStr ''Person''),
            (VStr ''name'', VStr ''Persons''),
            (VStr ''params'',
             VDict [(VStr ''id'',
                     VDict [(VStr ''name'', VStr ''id''), (VStr ''in'', VStr ''path''),
                            (VStr ''required'', VBool True), (VStr ''type'', VStr ''integer'')]),
                    (VStr ''payload'',
                     VDict [(VStr ''name'', VStr ''payload''), (VStr ''required'', VBool True),
                            (VStr ''in'', VStr ''body''),
                            (VStr ''schema'',
                             VDict [(VStr ''$ref'', VStr ''#/definitions/Person'')])])]),
            (VStr ''get'',
             VDict [(VStr ''docstring'',
                     VDict [(VStr ''raw'', VStr ''List the persons.''),
                            (VStr ''summary'', VStr ''List the persons''),
                            (VStr ''details'', VNone), (VStr ''returns'', VNone),
                            (VStr ''params'', VList []), (VStr ''raises'', VDict [])]),
                    (VStr ''params'', VDict [])])]"

text \<open>
  The keys of the specification document, and an API without resources with the
  document that \<^verbatim>\<open>as_dict\<close> returns for it.
\<close>

definition spec_keys :: "val set" where
  "spec_keys =
     VStr ` {''swagger'', ''basePath'', ''paths'', ''info'', ''produces'', ''consumes'',
             ''securityDefinitions'', ''security'', ''tags'', ''definitions'', ''responses'',
             ''host''}"

definition bare_api :: api where
  "bare_api =
     example_api\<lparr>api_namespaces :=
       [\<lparr>ns_name = ''default'', ns_description = VStr ''Default namespace'',
         ns_resources = []\<rparr>]\<rparr>"

definition bare_specs :: dict where
  "bare_specs =
     [(VStr ''swagger'', VStr ''2.0''),
      (VStr ''basePath'', VStr ''/api''),
      (VStr ''paths'', VDict []),
      (VStr ''info'', VDict [(VStr ''title'', VStr ''API''), (VStr ''version'', VStr ''1.0'')]),
      (VStr ''produces'', VList [VStr ''application/json'']),
      (VStr ''consumes'', VList [VStr ''application/json'']),
      (VStr ''tags'',
       VList [VDict [(VStr ''name'', VStr ''default''),
                     (VStr ''description'', VStr ''Default namespace'')]])]"

text \<open>
  The reference graph of the models: the references of a field and of an entry of
  \<^verbatim>\<open>api.models\<close> (its parent, then those of its fields), an edge from a name to every name
  that its entry refers to, and the names reachable from a name. \<open>registers models N m\<close>:
  with fuel \<open>N\<close> or more, \<^verbatim>\<open>register_model\<close> returns on \<open>m\<close> and adds to the registry the
  entries of \<^verbatim>\<open>api.models\<close> for exactly the names reachable from \<open>m\<close>.
\<close>

fun field_refs :: "field \<Rightarrow> val list" where
  "field_refs (Polymorph mapping) = map snd mapping"
| "field_refs (Nested nested) = [nested]"
| "field_refs (ListField container) = field_refs container"
| "field_refs RawField = []"

definition specs_refs :: "specs \<Rightarrow> val list" where
  "specs_refs specs =
     (case specs of
        SModel md \<Rightarrow>
          (case m_parent md of Some p \<Rightarrow> [p] | None \<Rightarrow> [])
          @ concat (map (\<lambda>f. field_refs (snd f)) (m_fields md))
      | SOther _ \<Rightarrow> [])"

definition model_edges :: "registry \<Rightarrow> (val \<times> val) set" where
  "model_edges models =
     {(x, y). \<exists>specs r. map_of models x = Some specs \<and> r \<in> set (specs_refs specs)
                 \<and> y = model_name r}"

definition reachable :: "registry \<Rightarrow> val \<Rightarrow> val set" where
  "reachable models x = {y. (x, y) \<in> (model_edges models)\<^sup>*}"

definition registers :: "registry \<Rightarrow> nat \<Rightarrow> val \<Rightarrow> bool" where
  "registers models N m =
     (\<forall>n\<ge>N. \<forall>reg. \<exists>reg'.
        register_model n models m reg = (Some (Inr (ref m)), reg')
        \<and> map_of reg' = map_of reg ++ (map_of models |` reachable models (model_name m)))"


text \<open>A resource with two routes.\<close>

definition two_routes :: resource where
  "two_routes =
     \<lparr>r_apidoc = 1, r_name = ''Things'', r_methods = Some [''GET''],
      r_impls = [(''get'', \<lparr>i_apidoc = None, i_docstring = example_docstring\<rparr>)]\<rparr>"

definition two_routes_state :: state where
  "two_routes_state =
     \<lparr>registered_models = [],
      resource_apidoc = [(1, VDict [(VStr ''description'', VStr ''Things'')])],
      handler_apidoc = []\<rparr>"

definition x_json :: arg where
  "x_json =
     Arg ''x'' (VStr ''json'') (ArgType (VType PyStr) None None) False VNone VNone
       (VStr ''store'') VNone"

definition x_form :: arg where
  "x_form =
     Arg ''x'' (VStr ''form'') (ArgType (VType PyStr) None None) False VNone VNone
       (VStr ''store'') VNone"

section \<open>Rules for invariants and errors\<close>

lemma preserves_return_ok: "preserves I (return_ok x)"
  by (simp add: preserves_def return_ok_def)
lemma preserves_raise_err: "preserves I (raise_err e)"
  by (simp add: preserves_def raise_err_def)
lemma preserves_out_of_fuel: "preserves I out_of_fuel"
  by (simp add: preserves_def out_of_fuel_def)
lemma preserves_lift_result: "preserves I (lift_result r)"
  by (cases r) (simp_all add: lift_result_def preserves_return_ok preserves_raise_err)
lemma preserves_get_state: "preserves I get_state"
  by (simp add: preserves_def get_state_def)
lemma preserves_modify: "(\<And>s. I s \<Longrightarrow> I (f s)) \<Longrightarrow> preserves I (modify f)"
  by (simp add: preserves_def modify_def)
lemma preserves_bind_prog:
  "preserves I m \<Longrightarrow> (\<And>x. preserves I (f x)) \<Longrightarrow> preserves I (bind_prog m f)"
  unfolding preserves_def bind_prog_def
  by (fastforce split: prod.splits option.splits sum.splits)

lemma registry_inv_setitem:
  "map_of models k = Some v \<Longrightarrow> registry_inv models reg \<Longrightarrow> registry_inv models (setitem k v reg)"
  unfolding registry_inv_def setitem_def
  by (induction reg) (auto split: if_splits)


lemma register_preserves:
  "preserves (registry_inv models) (register_model n models m)"
  "preserves (registry_inv models) (register_field n models f)"
  "preserves (registry_inv models) (register_fields n models fs)"
  "preserves (registry_inv models) (register_models n models ms)"
proof (induction n models m and n models f and n models fs and n models ms
       rule: register_model_register_field_register_fields_register_models.induct)
  case (1 models m)
  show ?case by (simp add: preserves_out_of_fuel)
next
  case (2 n models m)
  show ?case
  proof (cases "map_of models (model_name m)")
    case None
    then show ?thesis by (simp add: preserves_raise_err)
  next
    case (Some specs)
    have body: "preserves (registry_inv models)
        (case specs of
           SModel md \<Rightarrow>
             bind_prog
               (case m_parent md of
                  Some p \<Rightarrow> bind_prog (register_model n models p) (\<lambda>_. return_ok ())
                | None \<Rightarrow> return_ok ())
               (\<lambda>_. register_fields n models (map snd (m_fields md)))
         | SOther _ \<Rightarrow> return_ok ())"
    proof (cases specs)
      case (SModel md)
      have p: "preserves (registry_inv models)
                 (case m_parent md of
                    Some p \<Rightarrow> bind_prog (register_model n models p) (\<lambda>_. return_ok ())
                  | None \<Rightarrow> return_ok ())"
      proof (cases "m_parent md")
        case None
        then show ?thesis by (simp add: preserves_return_ok)
      next
        case (Some p)
        have "preserves (registry_inv models) (register_model n models p)"
          using "2.IH"(1)[OF \<open>map_of models (model_name m) = Some specs\<close> SModel Some] .
        then show ?thesis using Some
          by (simp add: preserves_bind_prog preserves_return_ok)
      qed
      have "preserves (registry_inv models) (register_fields n models (map snd (m_fields md)))"
        using "2.IH"(2)[OF \<open>map_of models (model_name m) = Some specs\<close> SModel] by simp
      with p show ?thesis using SModel
        by (simp add: preserves_bind_prog)
    next
      case (SOther x)
      then show ?thesis by (simp add: preserves_return_ok)
    qed
    have "preserves (registry_inv models) (modify (setitem (model_name m) specs))"
      by (rule preserves_modify) (rule registry_inv_setitem [OF Some])
    with body show ?thesis using Some
      by (simp add: preserves_bind_prog preserves_return_ok)
  qed
next
  case (3 n models mapping)
  then show ?case by simp
next
  case (4 n models nested)
  then show ?case by (simp add: preserves_bind_prog preserves_return_ok)
next
  case (5 n models container)
  then show ?case by simp
next
  case (6 n models)
  show ?case by (simp add: preserves_return_ok)
next
  case (7 n models)
  show ?case by (simp add: preserves_return_ok)
next
  case (8 n models f fs)
  then show ?case by (simp add: preserves_bind_prog)
next
  case (9 n models)
  show ?case by (simp add: preserves_return_ok)
next
  case (10 n models m ms)
  then show ?case by (simp add: preserves_bind_prog)
qed


lemmas preserves_intros =
  preserves_bind_prog preserves_return_ok preserves_raise_err preserves_out_of_fuel
  preserves_lift_result preserves_get_state

lemma serialize_schema_preserves:
  "preserves (registry_inv models) (serialize_schema n models m)"
  by (induction n models m rule: serialize_schema.induct)
     (auto intro!: preserves_intros register_preserves split: option.splits)

lemma merge_params_preserves:
  "preserves (registry_inv models) (merge_params n models params doc)"
  unfolding merge_params_def
  by (auto intro!: preserves_intros serialize_schema_preserves split: option.splits)

lemma extract_method_doc_preserves:
  "preserves (registry_inv models) (extract_method_doc n models impl md)"
  unfolding extract_method_doc_def
  by (auto intro!: preserves_intros merge_params_preserves split: val.splits)

lemma responses_declared_preserves:
  "preserves (registry_inv models) (responses_declared n models items responses)"
  by (induction n models items responses rule: responses_declared.induct)
     (auto intro!: preserves_intros serialize_schema_preserves)

lemma responses_model_preserves:
  "preserves (registry_inv models) (responses_model n models d responses)"
  unfolding responses_model_def
  by (auto intro!: preserves_intros serialize_schema_preserves split: option.splits simp: Let_def)

lemma on_registry_preserves:
  "preserves (registry_inv models) m \<Longrightarrow> preserves (state_inv models) (on_registry m)"
  unfolding preserves_def on_registry_def state_inv_def
  by (auto split: prod.splits)

lemma store_doc_preserves: "preserves (state_inv models) (store_doc attached rid doc)"
  unfolding store_doc_def by (rule preserves_modify) (simp add: state_inv_def)

lemma update_handler_param_inv:
  "state_inv models s \<Longrightarrow> state_inv models (update_handler_param e n p s)"
  unfolding update_handler_param_def state_inv_def
  by (auto split: option.splits val.splits)

lemma responses_step_preserves:
  "preserves (state_inv (api_models a)) (responses_step n a d responses)"
  unfolding responses_step_def
  by (auto intro!: preserves_intros on_registry_preserves responses_declared_preserves
        responses_model_preserves split: option.splits)

lemma responses_for_preserves:
  "preserves (state_inv (api_models a)) (responses_for n a doc method)"
  unfolding responses_for_def
  by (auto intro!: preserves_intros responses_step_preserves)

lemma serialize_operation_preserves:
  "preserves (state_inv (api_models a)) (serialize_operation n ap a doc method)"
  unfolding serialize_operation_def
  by (auto intro!: preserves_intros responses_for_preserves)

lemma extract_resource_doc_methods_preserves:
  "preserves (state_inv models) (extract_resource_doc_methods n models att r ms doc)"
  by (induction n models att r ms doc rule: extract_resource_doc_methods.induct)
     (auto intro!: preserves_intros on_registry_preserves extract_method_doc_preserves
        store_doc_preserves split: option.splits)

lemma extract_resource_doc_from_preserves:
  "preserves (state_inv models) (extract_resource_doc_from n ap models att r url doc)"
  unfolding extract_resource_doc_from_def
  by (auto intro!: preserves_intros on_registry_preserves merge_params_preserves
        store_doc_preserves extract_resource_doc_methods_preserves)

lemma extract_resource_doc_preserves:
  "preserves (state_inv models) (extract_resource_doc n ap models r url)"
proof -
  have "state_inv models (snd (extract_resource_doc n ap models r url s))"
    if "state_inv models s" for s
    using that extract_resource_doc_from_preserves[of models n ap _ r url]
    unfolding extract_resource_doc_def preserves_def
    by (auto split: option.splits val.splits bool.splits simp: return_ok_def raise_err_def)
  then show ?thesis by (simp add: preserves_def)
qed

lemma serialize_resource_methods_preserves:
  "preserves (state_inv (api_models a)) (serialize_resource_methods n ap a ns doc ms ops)"
  by (induction n ap a ns doc ms ops rule: serialize_resource_methods.induct)
     (auto intro!: preserves_intros serialize_operation_preserves)

lemma serialize_resource_preserves:
  "preserves (state_inv (api_models a)) (serialize_resource n ap a ns r url)"
  unfolding serialize_resource_def
  by (auto intro!: preserves_intros extract_resource_doc_preserves
        serialize_resource_methods_preserves split: val.splits)

lemma serialize_urls_preserves:
  "preserves (state_inv (api_models a)) (serialize_urls n ap a ns r urls paths)"
  by (induction n ap a ns r urls paths rule: serialize_urls.induct)
     (auto intro!: preserves_intros serialize_resource_preserves)

lemma serialize_resources_preserves:
  "preserves (state_inv (api_models a)) (serialize_resources n ap a ns rs paths)"
  by (induction n ap a ns rs paths rule: serialize_resources.induct)
     (auto intro!: preserves_intros serialize_urls_preserves)

lemma serialize_namespaces_preserves:
  "preserves (state_inv (api_models a)) (serialize_namespaces n ap a nss paths)"
  by (induction n ap a nss paths rule: serialize_namespaces.induct)
     (auto intro!: preserves_intros serialize_resources_preserves)

lemma error_headers_preserves:
  "preserves (state_inv models) (error_headers e items headers)"
  by (induction e items headers rule: error_headers.induct)
     (auto intro!: preserves_intros preserves_modify update_handler_param_inv split: val.splits)

lemma register_error_preserves:
  "preserves (state_inv (api_models a)) (register_error n a e ds)"
  unfolding register_error_def
  by (auto intro!: preserves_intros error_headers_preserves on_registry_preserves
        serialize_schema_preserves split: option.splits)

lemma register_errors_preserves:
  "preserves (state_inv (api_models a)) (register_errors n a)"
proof -
  have "preserves (state_inv (api_models a)) (register_errors_loop n a hs rs)" for hs rs
    by (induction n a hs rs rule: register_errors_loop.induct)
       (auto intro!: preserves_intros register_error_preserves)
  then show ?thesis by (simp add: register_errors_def)
qed

lemma as_dict_preserves:
  "preserves (state_inv (api_models a)) (as_dict n ap a)"
  unfolding as_dict_def
  by (auto intro!: preserves_intros register_errors_preserves serialize_namespaces_preserves)







lemma bind_prog_raises:
  "m s = (Some (Inl e), s') \<Longrightarrow> bind_prog m f s = (Some (Inl e), s')"
  by (simp add: bind_prog_def)

text \<open>What a program that returns went through.\<close>

lemma bind_prog_returns:
  "bind_prog m f s = (Some (Inr r), s') \<Longrightarrow>
   \<exists>x s1. m s = (Some (Inr x), s1) \<and> f x s1 = (Some (Inr r), s')"
  by (auto simp: bind_prog_def split: prod.splits option.splits sum.splits)

lemma lift_result_returns:
  "lift_result r s = (Some (Inr x), s') \<Longrightarrow> r = Inr x \<and> s' = s"
  by (cases r) (auto simp: lift_result_def return_ok_def raise_err_def)

lemma return_ok_returns: "return_ok y s = (Some (Inr x), s') \<Longrightarrow> x = y \<and> s' = s"
  by (auto simp: return_ok_def)

lemma bind_result_returns:
  "bind_result r f = Inr y \<Longrightarrow> \<exists>x. r = Inr x \<and> f x = Inr y"
  by (cases r) (auto simp: bind_result_def)

lemma modify_returns: "modify f s = (Some (Inr x), s') \<Longrightarrow> s' = f s"
  by (simp add: modify_def)

lemma on_registry_returns:
  "on_registry m s = (Some (Inr x), s') \<Longrightarrow>
   \<exists>reg'. m (registered_models s) = (Some (Inr x), reg') \<and> s' = s\<lparr>registered_models := reg'\<rparr>"
  by (auto simp: on_registry_def split: prod.splits)

lemma store_doc_returns:
  "store_doc attached rid doc s = (Some (Inr x), s') \<Longrightarrow>
   registered_models s' = registered_models s"
  by (auto simp: store_doc_def modify_def)

lemma map_of_setitem: "map_of (setitem k v d) k' = (if k' = k then Some v else map_of d k')"
  by (simp add: setitem_def update_conv')

section \<open>Unregistered models\<close>



section \<open>The registry holds models of the API only\<close>

lemma run_call_inv:
  "state_inv (api_models a) s \<Longrightarrow> state_inv (api_models a) (run_call ap a c s)"
proof (cases c)
  case (Pair n k)
  assume inv: "state_inv (api_models a) s"
  show ?thesis
  proof (cases k)
    case (RegisterModel m)
    with Pair inv on_registry_preserves[OF register_preserves(1), of "api_models a" n m]
    show ?thesis by (simp add: preserves_def)
  next
    case (SerializeSchema m)
    with Pair inv on_registry_preserves[OF serialize_schema_preserves, of "api_models a" n m]
    show ?thesis by (simp add: preserves_def)
  next
    case AsDict
    with Pair inv as_dict_preserves[of a n ap]
    show ?thesis by (simp add: preserves_def)
  qed
qed

lemma run_calls_inv:
  "state_inv (api_models a) s \<Longrightarrow> state_inv (api_models a) (run_calls ap a calls s)"
  unfolding run_calls_def
  by (induction calls arbitrary: s) (simp_all add: run_call_inv)

lemma serialize_definitions_entries:
  "serialize_definitions reg = Inr defs \<Longrightarrow> (name, schema) \<in> set defs \<Longrightarrow>
   \<exists>specs. (name, specs) \<in> set reg \<and> specs_schema specs = Inr schema"
proof (induction reg arbitrary: defs)
  case Nil
  then show ?case by simp
next
  case (Cons e reg)
  obtain k v where e: "e = (k, v)" by (cases e)
  from Cons.prems(1) e obtain s d where
    s: "specs_schema v = Inr s" and d: "serialize_definitions reg = Inr d"
    and defs: "defs = (k, s) # d"
    by (auto split: sum.splits)
  show ?case
  proof (cases "(name, schema) = (k, s)")
    case True
    with s e show ?thesis by auto
  next
    case False
    with Cons.prems(2) defs have "(name, schema) \<in> set d" by auto
    from Cons.IH[OF d this] show ?thesis by auto
  qed
qed

text \<open>
  C9: a \<^verbatim>\<open>Swagger\<close> object starts with an empty \<^verbatim>\<open>_registered_models\<close>. After any sequence
  of calls of \<^verbatim>\<open>register_model\<close>, \<^verbatim>\<open>serialize_schema\<close> and \<^verbatim>\<open>as_dict\<close>, each returning, raising
  or cut off at any depth of its recursion, every entry of the registry is the entry of
  \<^verbatim>\<open>api.models\<close> under the same name; hence every definition that
  \<^verbatim>\<open>serialize_definitions\<close> emits is the \<^verbatim>\<open>__schema__\<close> of the model that the API holds under
  that name.
\<close>

theorem registered_models_are_api_models:
  assumes "registered_models s = []"
  shows "registry_inv (api_models a) (registered_models (run_calls ap a calls s))
       \<and> (\<forall>defs name schema.
            serialize_definitions (registered_models (run_calls ap a calls s)) = Inr defs
            \<and> (name, schema) \<in> set defs
            \<longrightarrow> (\<exists>specs. map_of (api_models a) name = Some specs
                   \<and> specs_schema specs = Inr schema))"
proof -
  have "state_inv (api_models a) s"
    using assms by (simp add: state_inv_def registry_inv_def)
  then have inv: "registry_inv (api_models a) (registered_models (run_calls ap a calls s))"
    using run_calls_inv[of a s ap calls] by (simp add: state_inv_def)
  show ?thesis
  proof (intro conjI allI impI)
    show "registry_inv (api_models a) (registered_models (run_calls ap a calls s))"
      by (rule inv)
  next
    fix defs name schema
    assume "serialize_definitions (registered_models (run_calls ap a calls s)) = Inr defs
            \<and> (name, schema) \<in> set defs"
    then obtain specs where
      "(name, specs) \<in> set (registered_models (run_calls ap a calls s))"
      "specs_schema specs = Inr schema"
      using serialize_definitions_entries by blast
    with inv show "\<exists>specs. map_of (api_models a) name = Some specs
                     \<and> specs_schema specs = Inr schema"
      by (auto simp: registry_inv_def)
  qed
qed

theorem registered_models_are_api_models_witness:
  "registered_models example_state = []
   \<and> registry_inv (api_models example_api)
       (registered_models
          (run_calls example_app example_api
             [(3, SerializeSchema (VStr ''Person'')), (1, RegisterModel (VStr ''Pet'')),
              (3, AsDict)] example_state))"
proof -
  have e: "registered_models example_state = []"
    by (simp add: example_state_def)
  show ?thesis
    using registered_models_are_api_models[OF e, of example_api example_app] e
    by blast
qed

section \<open>Properties of the request-parser parameters\<close>

lemma parser_to_params_loop_cookie:
  "parser_to_params_loop params locations
     (filter (\<lambda>a. arg_location a \<noteq> VStr ''cookie'') args) =
   parser_to_params_loop params locations args"
  by (induction args arbitrary: params locations) (auto split: sum.splits)

text \<open>
  C10: an argument of a request parser whose location is \<^verbatim>\<open>'cookie'\<close> is dropped without
  a trace. \<^verbatim>\<open>parser_to_params\<close> gives, for every parser, the result it gives for the
  parser without its cookie arguments: the same parameters or the same error, so a
  cookie argument adds no entry and no location to the body/formData check.
\<close>

theorem parser_to_params_cookie_omitted:
  "parser_to_params args =
   parser_to_params (filter (\<lambda>a. arg_location a \<noteq> VStr ''cookie'') args)"
  by (simp add: parser_to_params_def parser_to_params_loop_cookie)

section \<open>Path parameters by converter\<close>

lemma path_param_type_claimed:
  "path_param_type converters d =
     (case claimed_path_type converters d of
        Some t \<Rightarrow> Inr t
      | None \<Rightarrow> Inl (ValueError UnsupportedConverter))"
  by (cases d) (auto simp: path_param_type_def claimed_path_type_def)

lemma split_match_error: "split_match m = Inl e \<Longrightarrow> e = ValueError Unpack"
  by (auto simp: split_match_def split: if_splits list.splits)

lemma loop_supported:
  "\<forall>m\<in>set ms. supported_segment converters m \<Longrightarrow>
   extract_path_params_loop converters params ms =
     Inr (fold (\<lambda>m. setitem (fst (segment_param converters m)) (snd (segment_param converters m))) ms params)"
proof (induction ms arbitrary: params)
  case Nil
  then show ?case by simp
next
  case (Cons m ms)
  from Cons.prems have "supported_segment converters m" by simp
  then obtain d n t where sm: "split_match m = Inr (d, n)"
    and ty: "claimed_path_type converters d = Some t"
    by (auto simp: supported_segment_def split: sum.splits)
  from Cons.prems have rest: "\<forall>m\<in>set ms. supported_segment converters m" by simp
  show ?case
    using sm ty Cons.IH[OF rest]
    by (simp add: path_param_type_claimed segment_param_def path_param_def)
qed

lemma loop_unsupported:
  "\<not> (\<forall>m\<in>set ms. supported_segment converters m) \<Longrightarrow>
   \<exists>r. extract_path_params_loop converters params ms = Inl (ValueError r)"
proof (induction ms arbitrary: params)
  case Nil
  then show ?case by simp
next
  case (Cons m ms)
  show ?case
  proof (cases "supported_segment converters m")
    case True
    then obtain d n t where sm: "split_match m = Inr (d, n)"
      and ty: "claimed_path_type converters d = Some t"
      by (auto simp: supported_segment_def split: sum.splits)
    from True Cons.prems have "\<not> (\<forall>m\<in>set ms. supported_segment converters m)" by simp
    from Cons.IH[OF this] show ?thesis
      using sm ty by (simp add: path_param_type_claimed)
  next
    case False
    show ?thesis
    proof (cases "split_match m")
      case (Inl e)
      then show ?thesis using split_match_error[OF Inl] by simp
    next
      case (Inr dn)
      obtain d n where dn: "dn = (d, n)" by (cases dn)
      with False Inr have "claimed_path_type converters d = None"
        by (simp add: supported_segment_def)
      with Inr dn show ?thesis by (simp add: path_param_type_claimed)
    qed
  qed
qed

lemma map_of_fold_setitem:
  "map_of (fold (\<lambda>e. setitem (fst e) (snd e)) es d) = map_of d ++ map_of (rev es)"
proof (induction es arbitrary: d)
  case Nil
  then show ?case by simp
next
  case (Cons e es)
  obtain k v where e: "e = (k, v)" by (cases e)
  have "map_of (fold (\<lambda>e. setitem (fst e) (snd e)) (e # es) d) =
        map_of (setitem k v d) ++ map_of (rev es)"
    using Cons.IH[of "setitem k v d"] e by simp
  also have "\<dots> = (map_of d)(k \<mapsto> v) ++ map_of (rev es)"
    by (simp add: setitem_def update_conv')
  also have "\<dots> = map_of d ++ map_of (rev (e # es))"
    by (auto simp: e map_add_def fun_eq_iff split: option.splits)
  finally show ?case .
qed

lemma setitem_fresh: "k \<notin> fst ` set d \<Longrightarrow> setitem k v d = d @ [(k, v)]"
  unfolding setitem_def by (induction d) auto

lemma fold_setitem_distinct:
  "distinct (map fst es) \<Longrightarrow> fst ` set es \<inter> fst ` set d = {} \<Longrightarrow>
   fold (\<lambda>e. setitem (fst e) (snd e)) es d = d @ es"
proof (induction es arbitrary: d)
  case Nil
  then show ?case by simp
next
  case (Cons e es)
  from Cons.prems have fresh: "fst e \<notin> fst ` set d" by auto
  from Cons.prems have "distinct (map fst es)" "fst ` set es \<inter> fst ` set (d @ [e]) = {}"
    by auto
  from Cons.IH[OF this] show ?case
    by (simp add: setitem_fresh[OF fresh])
qed

lemma fold_segment_params:
  "fold (\<lambda>m. setitem (fst (segment_param cs m)) (snd (segment_param cs m))) ms d =
   fold (\<lambda>e. setitem (fst e) (snd e)) (map (segment_param cs) ms) d"
  by (simp add: fold_map comp_def)

text \<open>
  What \<^verbatim>\<open>extract_path_params\<close> does on a URL pattern, by the text before the colon of
  each segment. When every segment is supported, it returns a mapping that holds, under
  the name of each segment, the parameter of that segment: its \<^verbatim>\<open>name\<close>, \<^verbatim>\<open>in\<close> path,
  \<^verbatim>\<open>required\<close>, and the \<^verbatim>\<open>type\<close> \<^verbatim>\<open>integer\<close> for the text \<^verbatim>\<open>int\<close>, \<^verbatim>\<open>number\<close> for \<^verbatim>\<open>float\<close>, \<^verbatim>\<open>string\<close> for
  \<^verbatim>\<open>string\<close>, for no converter and for any other key of the application's URL-map
  converters; with the names of a URL pattern, which differ from each other, that is one
  parameter per segment, in the order of the segments. When some segment is not
  supported, it raises \<^verbatim>\<open>ValueError\<close>.
\<close>

lemma extract_path_params_by_converter:
  "((\<forall>m\<in>set (RE_PARAMS_findall path). supported_segment converters m) \<longrightarrow>
      (\<exists>params. extract_path_params converters path = Inr params
         \<and> map_of params = map_of (rev (map (segment_param converters) (RE_PARAMS_findall path)))
         \<and> (distinct (map segment_name (RE_PARAMS_findall path)) \<longrightarrow>
              params = map (segment_param converters) (RE_PARAMS_findall path))))
   \<and> (\<not> (\<forall>m\<in>set (RE_PARAMS_findall path). supported_segment converters m) \<longrightarrow>
        (\<exists>r. extract_path_params converters path = Inl (ValueError r)))"
proof (intro conjI impI)
  let ?segs = "RE_PARAMS_findall path"
  assume ok: "\<forall>m\<in>set ?segs. supported_segment converters m"
  let ?params = "fold (\<lambda>e. setitem (fst e) (snd e)) (map (segment_param converters) ?segs) []"
  have res: "extract_path_params converters path = Inr ?params"
    using loop_supported[OF ok] by (simp add: extract_path_params_def fold_segment_params)
  have m: "map_of ?params = map_of (rev (map (segment_param converters) ?segs))"
    by (simp add: map_of_fold_setitem)
  have d: "?params = map (segment_param converters) ?segs"
    if dist: "distinct (map segment_name ?segs)"
  proof -
    have "map fst (map (segment_param converters) ?segs) = map (\<lambda>m. VStr (segment_name m)) ?segs"
      using ok
      by (auto simp: supported_segment_def segment_param_def segment_name_def split: sum.splits)
    moreover have "distinct (map (\<lambda>m. VStr (segment_name m)) ?segs)"
      using dist by (simp add: distinct_map inj_on_def comp_def)
    ultimately have "distinct (map fst (map (segment_param converters) ?segs))"
      by (simp only:)
    from fold_setitem_distinct[OF this, of "[]"] show ?thesis by simp
  qed
  from res m d show "\<exists>params. extract_path_params converters path = Inr params
         \<and> map_of params = map_of (rev (map (segment_param converters) ?segs))
         \<and> (distinct (map segment_name ?segs) \<longrightarrow>
              params = map (segment_param converters) ?segs)"
    by blast
next
  assume "\<not> (\<forall>m\<in>set (RE_PARAMS_findall path). supported_segment converters m)"
  from loop_unsupported[OF this]
  show "\<exists>r. extract_path_params converters path = Inl (ValueError r)"
    by (simp add: extract_path_params_def)
qed


lemma extract_path_params_example:
  "extract_path_params [''path''] ''/u/<int:id>/<path:p>/<tag>'' =
       Inr [(VStr ''id'',
             VDict [(VStr ''name'', VStr ''id''), (VStr ''in'', VStr ''path''),
                    (VStr ''required'', VBool True), (VStr ''type'', VStr ''integer'')]),
            (VStr ''p'',
             VDict [(VStr ''name'', VStr ''p''), (VStr ''in'', VStr ''path''),
                    (VStr ''required'', VBool True), (VStr ''type'', VStr ''string'')]),
            (VStr ''tag'',
             VDict [(VStr ''name'', VStr ''tag''), (VStr ''in'', VStr ''path''),
                    (VStr ''required'', VBool True), (VStr ''type'', VStr ''string'')])]
   \<and> (\<exists>r. extract_path_params [''path''] ''/u/<uuid:id>'' = Inl (ValueError r))"
proof -
  have f1: "RE_PARAMS_findall ''/u/<int:id>/<path:p>/<tag>'' = [''int:id'', ''path:p'', ''tag'']"
    by (simp add: RE_PARAMS_findall_def)
  have f2: "RE_PARAMS_findall ''/u/<uuid:id>'' = [''uuid:id'']"
    by (simp add: RE_PARAMS_findall_def)
  have s1: "split_match ''int:id'' = Inr (Some ''int'', ''id'')"
    "split_match ''path:p'' = Inr (Some ''path'', ''p'')"
    "split_match ''tag'' = Inr (None, ''tag'')"
    "split_match ''uuid:id'' = Inr (Some ''uuid'', ''id'')"
    by (simp_all add: split_match_def)
  have ok: "\<forall>m\<in>set (RE_PARAMS_findall ''/u/<int:id>/<path:p>/<tag>''). supported_segment [''path''] m"
    by (simp add: f1 supported_segment_def s1 claimed_path_type_def)
  have bad: "\<not> (\<forall>m\<in>set (RE_PARAMS_findall ''/u/<uuid:id>''). supported_segment [''path''] m)"
    by (simp add: f2 supported_segment_def s1 claimed_path_type_def)
  have dist: "distinct (map segment_name (RE_PARAMS_findall ''/u/<int:id>/<path:p>/<tag>''))"
    by (simp add: f1 segment_name_def s1)
  have sp: "map (segment_param [''path'']) [''int:id'', ''path:p'', ''tag''] =
      [(VStr ''id'',
        VDict [(VStr ''name'', VStr ''id''), (VStr ''in'', VStr ''path''),
               (VStr ''required'', VBool True), (VStr ''type'', VStr ''integer'')]),
       (VStr ''p'',
        VDict [(VStr ''name'', VStr ''p''), (VStr ''in'', VStr ''path''),
               (VStr ''required'', VBool True), (VStr ''type'', VStr ''string'')]),
       (VStr ''tag'',
        VDict [(VStr ''name'', VStr ''tag''), (VStr ''in'', VStr ''path''),
               (VStr ''required'', VBool True), (VStr ''type'', VStr ''string'')])]"
    by (simp add: segment_param_def s1 claimed_path_type_def)
  show ?thesis
    using extract_path_params_by_converter[of "''/u/<int:id>/<path:p>/<tag>''" "[''path'']"]
      extract_path_params_by_converter[of "''/u/<uuid:id>''" "[''path'']"] ok bad dist sp f1
    by auto
qed

text \<open>
  C4 does not hold of the code. A segment may give its converter arguments, as in
  \<^verbatim>\<open><int(min=1):n>\<close>: its converter is \<^verbatim>\<open>int\<close>, and the claim gives its parameter the type
  \<^verbatim>\<open>integer\<close>. \<^verbatim>\<open>extract_path_params\<close> takes all that stands before the colon,
  \<^verbatim>\<open>int(min=1)\<close>, for the converter, finds it neither in \<^verbatim>\<open>PATH_TYPES\<close> nor among the
  converters of the URL map, which knows \<^verbatim>\<open>int\<close>, and raises \<^verbatim>\<open>ValueError\<close>; the same
  segment without the arguments gives the parameter that the claim describes.
\<close>

theorem extract_path_params_converter_arguments:
  "extract_path_params default_converters ''/x/<int:n>'' =
       Inr [(VStr ''n'',
             VDict [(VStr ''name'', VStr ''n''), (VStr ''in'', VStr ''path''),
                    (VStr ''required'', VBool True), (VStr ''type'', VStr ''integer'')])]
   \<and> RE_PARAMS_findall ''/x/<int(min=1):n>'' = [''int(min=1):n'']
   \<and> split_match ''int(min=1):n'' = Inr (Some ''int(min=1)'', ''n'')
   \<and> extract_path_params default_converters ''/x/<int(min=1):n>'' =
       Inl (ValueError UnsupportedConverter)"
  by code_simp

section \<open>Conflicting locations of parser parameters\<close>

lemma has_key_setitem: "has_key d k \<Longrightarrow> has_key (setitem k' v d) k"
  by (auto simp: has_key_def setitem_def dom_update)

lemma has_key_dict_update: "has_key d k \<Longrightarrow> has_key (dict_update d e) k"
  unfolding dict_update_def
  by (induction e arbitrary: d) (auto simp: has_key_setitem)

lemma has_key_map_of: "has_key d k \<longleftrightarrow> map_of d k \<noteq> None"
  by (auto simp: has_key_def map_of_eq_None_iff)

lemma has_key_update_pairs:
  "update_pairs d xs = Inr p \<Longrightarrow> has_key d k \<Longrightarrow> has_key p k"
  by (induction xs arbitrary: d)
     (auto simp: has_key_setitem split: sum.splits prod.splits if_splits)

lemma has_key_update_from:
  "update_from d e = Inr p \<Longrightarrow> has_key d k \<Longrightarrow> has_key p k"
  unfolding update_from_def
  by (auto simp: has_key_dict_update split: val.splits sum.splits dest: has_key_update_pairs)

lemma handle_arg_type_in:
  "handle_arg_type a param = Inr p \<Longrightarrow> has_key param (VStr ''in'') \<Longrightarrow> has_key p (VStr ''in'')"
  unfolding handle_arg_type_def
  by (auto simp: has_key_setitem split: option.splits sum.splits if_splits
      dest: has_key_update_from)

lemma arg_to_param_in: "arg_to_param a = Inr p \<Longrightarrow> has_key p (VStr ''in'')"
proof -
  assume r: "arg_to_param a = Inr p"
  let ?p0 = "[(VStr ''in'', VStr (case LOCATIONS (arg_location a) of None \<Rightarrow> ''query'' | Some l \<Rightarrow> l))]"
  from r obtain p1 where h: "handle_arg_type a ?p0 = Inr p1"
    by (auto simp: arg_to_param_def Let_def split: sum.splits if_splits)
  have "has_key ?p0 (VStr ''in'')" by (simp add: has_key_def)
  from handle_arg_type_in[OF h this] have "has_key p1 (VStr ''in'')" .
  with r h show ?thesis
    by (auto simp: arg_to_param_def Let_def getitem_def has_key_setitem
        split: sum.splits if_splits option.splits)
qed

lemma unpack2_error: "unpack2 v = Inl e \<Longrightarrow> e \<noteq> SpecsError"
  by (auto simp: unpack2_def iterate_def split: val.splits sum.splits list.splits)

lemma update_pairs_error: "update_pairs d xs = Inl e \<Longrightarrow> e \<noteq> SpecsError"
  by (induction xs arbitrary: d)
     (auto split: sum.splits prod.splits if_splits dest: unpack2_error)

lemma update_from_error: "update_from d v = Inl e \<Longrightarrow> e \<noteq> SpecsError"
  by (auto simp: update_from_def iterate_def split: val.splits sum.splits
      dest: update_pairs_error)

lemma handle_arg_type_error: "handle_arg_type a param = Inl e \<Longrightarrow> e \<noteq> SpecsError"
  unfolding handle_arg_type_def
  by (auto simp: subscript_def getitem_def
      split: option.splits sum.splits if_splits val.splits dest: update_from_error)

lemma arg_to_param_error: "arg_to_param a = Inl e \<Longrightarrow> e \<noteq> SpecsError"
  unfolding arg_to_param_def
  by (auto simp: Let_def getitem_def split: sum.splits if_splits option.splits
      dest: handle_arg_type_error)

lemma loop_yields:
  "yields_params args \<Longrightarrow>
   parser_to_params_loop params locations args =
     Inr (fold add_param (filter (\<lambda>a. arg_location a \<noteq> VStr ''cookie'') args) params,
          locations \<union> param_locations args)"
proof (induction args arbitrary: params locations)
  case Nil
  then show ?case by (simp add: param_locations_def)
next
  case (Cons a args)
  from Cons.prems have rest: "yields_params args" by (simp add: yields_params_def)
  show ?case
  proof (cases "arg_location a = VStr ''cookie''")
    case True
    with Cons.IH[OF rest, of params locations] show ?thesis
      by (simp add: param_locations_def)
  next
    case False
    with Cons.prems obtain p l where p: "arg_to_param a = Inr p"
      and l: "map_of p (VStr ''in'') = Some l" and h: "hashable l"
      by (auto simp: yields_params_def yields_param_def split: sum.splits option.splits)
    have "insert l locations \<union> param_locations args = locations \<union> param_locations (a # args)"
      using False p l by (auto simp: param_locations_def param_location_def)
    with Cons.IH[OF rest, of "setitem (VStr (arg_name a)) (VDict p) params" "insert l locations"]
    show ?thesis
      using False p l h by (simp add: getitem_def add_param_def)
  qed
qed

lemma loop_fails:
  "\<not> yields_params args \<Longrightarrow>
   \<exists>e. parser_to_params_loop params locations args = Inl e \<and> e \<noteq> SpecsError"
proof (induction args arbitrary: params locations)
  case Nil
  then show ?case by (simp add: yields_params_def)
next
  case (Cons a args)
  show ?case
  proof (cases "arg_location a = VStr ''cookie''")
    case True
    with Cons.prems have "\<not> yields_params args" by (simp add: yields_params_def)
    from Cons.IH[OF this] True show ?thesis by simp
  next
    case False
    show ?thesis
    proof (cases "arg_to_param a")
      case (Inl e)
      with False arg_to_param_error[OF Inl] show ?thesis by simp
    next
      case (Inr p)
      from arg_to_param_in[OF Inr] obtain l where l: "map_of p (VStr ''in'') = Some l"
        by (auto simp: has_key_map_of)
      show ?thesis
      proof (cases "hashable l")
        case True
        with Cons.prems Inr l have "\<not> yields_params args"
          by (simp add: yields_params_def yields_param_def)
        from Cons.IH[OF this] False Inr l True show ?thesis by (simp add: getitem_def)
      next
        case no: False
        with False Inr l show ?thesis by (simp add: getitem_def)
      qed
    qed
  qed
qed

text \<open>
  C6, as amended: when every argument that is no cookie yields a parameter,
  \<^verbatim>\<open>parser_to_params\<close> raises \<^verbatim>\<open>SpecsError\<close> if the locations of the derived parameters,
  taken per argument, include both \<^verbatim>\<open>body\<close> and \<^verbatim>\<open>formData\<close>, and returns the mapping of the
  derived parameters if they do not; it raises \<^verbatim>\<open>SpecsError\<close> in no other case.
\<close>

theorem parser_to_params_conflict:
  "(parser_to_params args = Inl SpecsError \<longleftrightarrow>
      yields_params args \<and> VStr ''body'' \<in> param_locations args
      \<and> VStr ''formData'' \<in> param_locations args)
   \<and> (yields_params args
        \<and> \<not> (VStr ''body'' \<in> param_locations args \<and> VStr ''formData'' \<in> param_locations args)
        \<longrightarrow> parser_to_params args = Inr (derived_params args))"
proof (cases "yields_params args")
  case True
  from loop_yields[OF True, of "[]" "{}"] have
    "parser_to_params_loop [] {} args = Inr (derived_params args, param_locations args)"
    by (simp add: derived_params_def)
  with True show ?thesis by (simp add: parser_to_params_def)
next
  case False
  from loop_fails[OF False, of "[]" "{}"] obtain e where
    "parser_to_params_loop [] {} args = Inl e" "e \<noteq> SpecsError" by auto
  with False show ?thesis by (simp add: parser_to_params_def)
qed

text \<open>
  C6 as stated fails. An argument whose location is a list of locations makes
  \<^verbatim>\<open>parser_to_params\<close> raise \<^verbatim>\<open>TypeError\<close>, and an argument with \<^verbatim>\<open>action='append'\<close> whose type
  has a \<^verbatim>\<open>__schema__\<close> without \<^verbatim>\<open>type\<close> makes it raise \<^verbatim>\<open>KeyError\<close>, each with no parameter in
  \<^verbatim>\<open>body\<close> or \<^verbatim>\<open>formData\<close>. And two arguments of one name, the first in \<^verbatim>\<open>json\<close> and the second
  in \<^verbatim>\<open>form\<close>, make it raise \<^verbatim>\<open>SpecsError\<close> although the mapping built from them holds
  the \<^verbatim>\<open>formData\<close> parameter alone: the locations are collected per argument.
\<close>

theorem parser_to_params_error_without_conflict:
  "parser_to_params [list_location_arg] = Inl TypeError
   \<and> param_locations [list_location_arg] = {}
   \<and> parser_to_params [schema_only_arg] = Inl KeyError
   \<and> VStr ''body'' \<notin> param_locations [schema_only_arg]
   \<and> VStr ''formData'' \<notin> param_locations [schema_only_arg]
   \<and> parser_to_params [x_json, x_form] = Inl SpecsError
   \<and> parser_to_params_loop [] {} [x_json, x_form] =
       Inr ([(VStr ''x'', VDict [(VStr ''in'', VStr ''formData''), (VStr ''type'', VStr ''string'')])],
            {VStr ''body'', VStr ''formData''})"
  by code_simp

theorem parser_to_params_conflict_witness:
  "yields_params [json_arg, file_arg]
   \<and> VStr ''body'' \<in> param_locations [json_arg, file_arg]
   \<and> VStr ''formData'' \<in> param_locations [json_arg, file_arg]
   \<and> parser_to_params [json_arg, file_arg] = Inl SpecsError
   \<and> yields_params [file_arg]
   \<and> \<not> (VStr ''body'' \<in> param_locations [file_arg] \<and> VStr ''formData'' \<in> param_locations [file_arg])
   \<and> parser_to_params [file_arg] =
       Inr [(VStr ''upload'',
             VDict [(VStr ''in'', VStr ''formData''), (VStr ''type'', VStr ''file''),
                    (VStr ''description'', VStr ''a file'')])]"
proof -
  have j: "arg_to_param json_arg =
      Inr [(VStr ''in'', VStr ''body''), (VStr ''type'', VStr ''string''),
           (VStr ''required'', VBool True)]"
    by (simp add: json_arg_def arg_to_param_def handle_arg_type_def setitem_def is_Hashable_def)
  have f: "arg_to_param file_arg =
      Inr [(VStr ''in'', VStr ''formData''), (VStr ''type'', VStr ''file''),
           (VStr ''description'', VStr ''a file'')]"
    by (simp add: file_arg_def arg_to_param_def handle_arg_type_def setitem_def is_Hashable_def)
  have y2: "yields_params [json_arg, file_arg]" and y1: "yields_params [file_arg]"
    by (simp_all add: yields_params_def yields_param_def j f)
  have c: "arg_location json_arg \<noteq> VStr ''cookie''" "arg_location file_arg \<noteq> VStr ''cookie''"
    by (simp_all add: json_arg_def file_arg_def)
  have l2: "param_locations [json_arg, file_arg] = {VStr ''body'', VStr ''formData''}"
    by (auto simp: param_locations_def param_location_def j f c)
  have l1: "param_locations [file_arg] = {VStr ''formData''}"
    by (auto simp: param_locations_def param_location_def j f c)
  have d: "derived_params [file_arg] =
      [(VStr ''upload'',
        VDict [(VStr ''in'', VStr ''formData''), (VStr ''type'', VStr ''file''),
               (VStr ''description'', VStr ''a file'')])]"
    by (simp add: derived_params_def add_param_def c f setitem_def) (simp add: file_arg_def)
  show ?thesis
    using parser_to_params_conflict[of "[json_arg, file_arg]"]
      parser_to_params_conflict[of "[file_arg]"] y2 y1 l2 l1 d
    by simp
qed

section \<open>The default response\<close>

lemma responses_raise_none:
  "list_all (\<lambda>e. \<not> exception_applies store name e) handlers \<Longrightarrow>
   responses_raise store name handlers responses = Inr responses"
  by (induction handlers) (auto simp: exception_applies_def split: sum.splits)

lemma responses_raises_none:
  "list_all (\<lambda>r. list_all (\<lambda>e. \<not> exception_applies store (fst r) e) handlers) raises \<Longrightarrow>
   responses_raises store handlers raises responses = Inr responses"
  by (induction raises) (auto simp: responses_raise_none)

lemma responses_step_none:
  assumes "nothing_declared (handler_apidoc s) (map fst (api_error_handlers a)) d"
  shows "responses_step n a d responses s = (Some (Inr responses), s)"
proof -
  have r: "(case map_of d (VStr ''responses'') of
              None \<Rightarrow> return_ok responses
            | Some declared \<Rightarrow>
                bind_prog (lift_result (as_mapping declared)) (\<lambda>items.
                  on_registry (responses_declared n (api_models a) items responses))) s
           = (Some (Inr responses), s)"
    using assms
    by (auto simp: nothing_declared_def return_ok_def bind_prog_def lift_result_def
        as_mapping_def on_registry_def split: option.splits)
  have m: "on_registry (responses_model n (api_models a) d responses) s = (Some (Inr responses), s)"
    using assms
    by (simp add: nothing_declared_def responses_model_def on_registry_def return_ok_def)
  have d: "(case map_of d (VStr ''docstring'') of
          None \<Rightarrow> return_ok responses
        | Some ds \<Rightarrow>
            bind_prog (lift_result (bind_result (subscript ds (VStr ''raises'')) as_mapping))
              (\<lambda>raises.
            bind_prog get_state (\<lambda>s.
              lift_result
                (responses_raises (handler_apidoc s) (map fst (api_error_handlers a))
                   raises responses)))) s = (Some (Inr responses), s)"
    using assms
    by (auto simp: nothing_declared_def return_ok_def bind_prog_def lift_result_def
        bind_result_def as_mapping_def get_state_def responses_raises_none
        split: option.splits sum.splits val.splits)
  show ?thesis
    unfolding responses_step_def
    by (simp add: bind_prog_def r m d)
qed

text \<open>
  C7: for an operation whose class doc and method doc declare no response code, no model
  and no documented exception that a handler answers, \<^verbatim>\<open>responses_for\<close> returns exactly
  the default response, code \<^verbatim>\<open>'200'\<close> with the description \<^verbatim>\<open>'Success'\<close>, and leaves the
  state as it was.
\<close>

theorem responses_for_default:
  assumes "getitem doc (VStr method) = Inr (VDict method_doc)"
    and "nothing_declared (handler_apidoc s) (map fst (api_error_handlers a)) doc"
    and "nothing_declared (handler_apidoc s) (map fst (api_error_handlers a)) method_doc"
  shows "responses_for n a doc method s =
           (Some (Inr [(VStr ''200'', VDict [(VStr ''description'', VStr ''Success'')])]), s)"
  unfolding responses_for_def
  by (simp add: bind_prog_def lift_result_def bind_result_def assms(1) as_mapping_def
      return_ok_def responses_step_none[OF assms(2)] responses_step_none[OF assms(3)]
      DEFAULT_RESPONSE_def DEFAULT_RESPONSE_DESCRIPTION_def)


theorem responses_for_default_witness:
  "getitem plain_doc (VStr ''get'') = Inr (VDict plain_method_doc)
   \<and> nothing_declared (handler_apidoc conflict_state) (map fst (api_error_handlers conflict_api))
        plain_doc
   \<and> nothing_declared (handler_apidoc conflict_state) (map fst (api_error_handlers conflict_api))
        plain_method_doc
   \<and> responses_for 0 conflict_api plain_doc ''get'' conflict_state =
       (Some (Inr [(VStr ''200'', VDict [(VStr ''description'', VStr ''Success'')])]),
        conflict_state)"
proof -
  have g: "getitem plain_doc (VStr ''get'') = Inr (VDict plain_method_doc)"
    by (simp add: plain_doc_def getitem_def)
  have h: "handler_code (handler_apidoc conflict_state) ''Conflict'' = Inr (VInt 409)"
    by (simp add: conflict_state_def handler_code_def bind_result_def as_mapping_def)
  have d: "nothing_declared (handler_apidoc conflict_state)
             (map fst (api_error_handlers conflict_api)) plain_doc"
    by (simp add: nothing_declared_def plain_doc_def)
  have m: "nothing_declared (handler_apidoc conflict_state)
             (map fst (api_error_handlers conflict_api)) plain_method_doc"
    by (simp add: nothing_declared_def plain_method_doc_def parse_docstring_def subscript_def
        getitem_def conflict_api_def exception_applies_def h)
  show ?thesis
    using responses_for_default[OF g d m, of 0] g d m by simp
qed

section \<open>The order of the parameter sources\<close>

lemma merge_items_Cons:
  "merge_items d ((k, v) # e) = merge_items (setitem k (merged_value (map_of d k) v) d) e"
  by (cases v) (auto simp: merged_value_def split: option.splits val.splits)

lemma map_of_merge_items:
  "distinct (map fst e) \<Longrightarrow>
   map_of (merge_items d e) x =
     (case map_of e x of None \<Rightarrow> map_of d x | Some v \<Rightarrow> Some (merged_value (map_of d x) v))"
proof (induction e arbitrary: d)
  case Nil
  then show ?case by simp
next
  case (Cons kv e)
  obtain k v where kv: "kv = (k, v)" by (cases kv)
  from Cons.prems kv have dist: "distinct (map fst e)" and fresh: "map_of e k = None"
    by (auto simp: map_of_eq_None_iff)
  show ?case
    unfolding kv merge_items_Cons
    using Cons.IH[OF dist, of "setitem k (merged_value (map_of d k) v) d"] fresh
    by (auto simp: setitem_def update_conv' split: option.splits)
qed

lemma later_merge:
  "distinct (map fst e) \<Longrightarrow>
   map_of (merge_items d e) x = later_wins (map_of d x) (map_of e x)"
  by (simp add: map_of_merge_items later_wins_def merged_value_def
      split: option.splits val.splits)

lemma parser_to_params_loop_distinct:
  "parser_to_params_loop params locations args = Inr (ps, ls) \<Longrightarrow>
   distinct (map fst params) \<Longrightarrow> distinct (map fst ps)"
  by (induction args arbitrary: params locations)
     (auto simp: setitem_def distinct_update split: sum.splits if_splits)

lemma parser_to_params_distinct: "parser_to_params args = Inr ps \<Longrightarrow> distinct (map fst ps)"
  using parser_to_params_loop_distinct[of "[]" "{}" args]
  by (auto simp: parser_to_params_def split: sum.splits prod.splits if_splits)

lemma merge_params_returns:
  assumes r: "merge_params n models params doc reg = (Some (Inr result), reg')"
  shows "\<exists>with_parser with_declared.
          (case map_of doc (VStr ''parser'') of
             None \<Rightarrow> with_parser = params
           | Some parser \<Rightarrow>
               \<exists>args parsed. parser = VParser args \<and> parser_to_params args = Inr parsed
                  \<and> merge params (VDict parsed) = Inr with_parser)
        \<and> (case map_of doc (VStr ''params'') of
             None \<Rightarrow> with_declared = with_parser
           | Some declared \<Rightarrow> merge with_parser declared = Inr with_declared)
        \<and> (case map_of doc (VStr ''body'') of
             None \<Rightarrow> result = with_declared \<and> reg' = reg
           | Some body \<Rightarrow>
               \<exists>schema. serialize_schema n models (fst (body_model body)) reg
                          = (Some (Inr schema), reg')
                  \<and> merge with_declared (payload schema (snd (body_model body))) = Inr result)"
proof (cases "\<not> has_key doc (VStr ''params'') \<and> \<not> has_key doc (VStr ''parser'')
              \<and> \<not> has_key doc (VStr ''body'')")
  case True
  then have none: "map_of doc (VStr ''params'') = None" "map_of doc (VStr ''parser'') = None"
    "map_of doc (VStr ''body'') = None"
    by (auto simp: has_key_def map_of_eq_None_iff)
  from r True have "result = params" "reg' = reg"
    by (auto simp: merge_params_def return_ok_def)
  with none show ?thesis by simp
next
  case False
  with r have chain:
    "bind_prog
        (case map_of doc (VStr ''parser'') of
           Some parser \<Rightarrow>
             lift_result
               (bind_result (parser_args parser) (\<lambda>args.
                bind_result (parser_to_params args) (\<lambda>parsed. merge params (VDict parsed))))
         | None \<Rightarrow> return_ok params) (\<lambda>params.
      bind_prog
        (case map_of doc (VStr ''params'') of
           Some declared \<Rightarrow> lift_result (merge params declared)
         | None \<Rightarrow> return_ok params) (\<lambda>params.
      (case map_of doc (VStr ''body'') of
         Some body \<Rightarrow>
           bind_prog (serialize_schema n models (fst (body_model body))) (\<lambda>schema.
             lift_result (merge params (payload schema (snd (body_model body)))))
       | None \<Rightarrow> return_ok params))) reg = (Some (Inr result), reg')"
    unfolding merge_params_def by (simp only: if_False)
  from bind_prog_returns[OF chain] obtain p1 reg1 where
    s1: "(case map_of doc (VStr ''parser'') of
           Some parser \<Rightarrow>
             lift_result
               (bind_result (parser_args parser) (\<lambda>args.
                bind_result (parser_to_params args) (\<lambda>parsed. merge params (VDict parsed))))
         | None \<Rightarrow> return_ok params) reg = (Some (Inr p1), reg1)"
    and c2: "bind_prog
        (case map_of doc (VStr ''params'') of
           Some declared \<Rightarrow> lift_result (merge p1 declared)
         | None \<Rightarrow> return_ok p1) (\<lambda>params.
      (case map_of doc (VStr ''body'') of
         Some body \<Rightarrow>
           bind_prog (serialize_schema n models (fst (body_model body))) (\<lambda>schema.
             lift_result (merge params (payload schema (snd (body_model body)))))
       | None \<Rightarrow> return_ok params)) reg1 = (Some (Inr result), reg')"
    by blast
  from bind_prog_returns[OF c2] obtain p2 reg2 where
    s2: "(case map_of doc (VStr ''params'') of
           Some declared \<Rightarrow> lift_result (merge p1 declared)
         | None \<Rightarrow> return_ok p1) reg1 = (Some (Inr p2), reg2)"
    and s3: "(case map_of doc (VStr ''body'') of
         Some body \<Rightarrow>
           bind_prog (serialize_schema n models (fst (body_model body))) (\<lambda>schema.
             lift_result (merge p2 (payload schema (snd (body_model body)))))
       | None \<Rightarrow> return_ok p2) reg2 = (Some (Inr result), reg')"
    by blast
  have a1: "reg1 = reg \<and> (case map_of doc (VStr ''parser'') of
           None \<Rightarrow> p1 = params
         | Some parser \<Rightarrow>
             \<exists>args parsed. parser = VParser args \<and> parser_to_params args = Inr parsed
                \<and> merge params (VDict parsed) = Inr p1)"
  proof (cases "map_of doc (VStr ''parser'')")
    case None
    with s1 show ?thesis by (auto dest: return_ok_returns)
  next
    case (Some parser)
    with s1 have l: "bind_result (parser_args parser) (\<lambda>args.
                bind_result (parser_to_params args) (\<lambda>parsed. merge params (VDict parsed)))
                = Inr p1" and "reg1 = reg"
      by (auto dest: lift_result_returns)
    from bind_result_returns[OF l] obtain args where
      a: "parser_args parser = Inr args"
      and l2: "bind_result (parser_to_params args) (\<lambda>parsed. merge params (VDict parsed)) = Inr p1"
      by blast
    from bind_result_returns[OF l2] obtain parsed where
      "parser_to_params args = Inr parsed" "merge params (VDict parsed) = Inr p1"
      by blast
    moreover from a have "parser = VParser args"
      by (auto simp: parser_args_def split: val.splits)
    ultimately show ?thesis using Some \<open>reg1 = reg\<close> by auto
  qed
  have a2: "reg2 = reg1 \<and> (case map_of doc (VStr ''params'') of
           None \<Rightarrow> p2 = p1
         | Some declared \<Rightarrow> merge p1 declared = Inr p2)"
    using s2 by (auto split: option.splits dest: return_ok_returns lift_result_returns)
  have a3: "(case map_of doc (VStr ''body'') of
           None \<Rightarrow> result = p2 \<and> reg' = reg2
         | Some body \<Rightarrow>
             \<exists>schema. serialize_schema n models (fst (body_model body)) reg2
                        = (Some (Inr schema), reg')
                \<and> merge p2 (payload schema (snd (body_model body))) = Inr result)"
  proof (cases "map_of doc (VStr ''body'')")
    case None
    with s3 show ?thesis by (auto dest: return_ok_returns)
  next
    case (Some body)
    with s3 have "bind_prog (serialize_schema n models (fst (body_model body))) (\<lambda>schema.
             lift_result (merge p2 (payload schema (snd (body_model body))))) reg2
             = (Some (Inr result), reg')" by simp
    from bind_prog_returns[OF this] obtain schema regs where
      "serialize_schema n models (fst (body_model body)) reg2 = (Some (Inr schema), regs)"
      "lift_result (merge p2 (payload schema (snd (body_model body)))) regs
         = (Some (Inr result), reg')" by blast
    with Some show ?thesis by (auto dest: lift_result_returns)
  qed
  from a1 a2 a3 show ?thesis by (auto split: option.splits)
qed

lemma merge_params_law:
  assumes r: "fst (merge_params n models (VDict first) doc reg) = Some (Inr result)"
    and d: "declared_params doc = Some declared"
  shows "\<exists>parsed body merged.
           parsed_params doc = Some parsed \<and> body_params n models reg doc = Some body
         \<and> result = VDict merged \<and> merged_in_order merged first parsed declared body"
proof -
  from r obtain reg' where
    "merge_params n models (VDict first) doc reg = (Some (Inr result), reg')"
    by (cases "merge_params n models (VDict first) doc reg") auto
  from merge_params_returns[OF this] obtain with_parser with_declared where
    p: "(case map_of doc (VStr ''parser'') of
           None \<Rightarrow> with_parser = VDict first
         | Some parser \<Rightarrow>
             \<exists>args parsed. parser = VParser args \<and> parser_to_params args = Inr parsed
                \<and> merge (VDict first) (VDict parsed) = Inr with_parser)"
    and dc: "(case map_of doc (VStr ''params'') of
           None \<Rightarrow> with_declared = with_parser
         | Some declared \<Rightarrow> merge with_parser declared = Inr with_declared)"
    and b: "(case map_of doc (VStr ''body'') of
           None \<Rightarrow> result = with_declared \<and> reg' = reg
         | Some body \<Rightarrow>
             \<exists>schema. serialize_schema n models (fst (body_model body)) reg
                        = (Some (Inr schema), reg')
                \<and> merge with_declared (payload schema (snd (body_model body))) = Inr result)"
    by blast
  have s1: "\<exists>parsed m1. parsed_params doc = Some parsed \<and> with_parser = VDict m1
      \<and> (\<forall>key. map_of m1 key = later_wins (map_of first key) (map_of parsed key))"
  proof (cases "map_of doc (VStr ''parser'')")
    case None
    with p show ?thesis by (simp add: parsed_params_def later_wins_def)
  next
    case (Some parser)
    with p obtain args parsed where a: "parser = VParser args"
      "parser_to_params args = Inr parsed" "merge (VDict first) (VDict parsed) = Inr with_parser"
      by auto
    from a(3) have "with_parser = VDict (merge_items first parsed)" by (simp add: merge_def)
    with Some a(1,2) later_merge[OF parser_to_params_distinct[OF a(2)], of first]
    show ?thesis by (simp add: parsed_params_def)
  qed
  then obtain parsed m1 where pp: "parsed_params doc = Some parsed"
    and m1: "with_parser = VDict m1"
      "\<forall>key. map_of m1 key = later_wins (map_of first key) (map_of parsed key)"
    by blast
  have s2: "\<exists>m2. with_declared = VDict m2
      \<and> (\<forall>key. map_of m2 key = later_wins (map_of m1 key) (map_of declared key))"
  proof (cases "map_of doc (VStr ''params'')")
    case None
    with d dc m1 show ?thesis by (simp add: declared_params_def later_wins_def)
  next
    case (Some v)
    with d have v: "v = VDict declared" and dist: "distinct (map fst declared)"
      by (auto simp: declared_params_def split: val.splits if_splits)
    from dc Some v m1 have "with_declared = VDict (merge_items m1 declared)"
      by (simp add: merge_def)
    with later_merge[OF dist, of m1] show ?thesis by simp
  qed
  then obtain m2 where m2: "with_declared = VDict m2"
      "\<forall>key. map_of m2 key = later_wins (map_of m1 key) (map_of declared key)"
    by blast
  have s3: "\<exists>body m3. body_params n models reg doc = Some body \<and> result = VDict m3
      \<and> (\<forall>key. map_of m3 key = later_wins (map_of m2 key) (map_of body key))"
  proof (cases "map_of doc (VStr ''body'')")
    case None
    with b m2 show ?thesis by (simp add: body_params_def later_wins_def)
  next
    case (Some body)
    with b obtain schema where sc:
      "serialize_schema n models (fst (body_model body)) reg = (Some (Inr schema), reg')"
      "merge with_declared (payload schema (snd (body_model body))) = Inr result"
      by auto
    let ?entry = "[(VStr ''payload'',
                      VDict ([(VStr ''name'', VStr ''payload''), (VStr ''required'', VBool True),
                              (VStr ''in'', VStr ''body'')]
                             @ (if schema = VNone then [] else [(VStr ''schema'', schema)])
                             @ (if snd (body_model body) = VNone then []
                                else [(VStr ''description'', snd (body_model body))])))]"
    have pl: "payload schema (snd (body_model body)) = VDict ?entry"
      by (simp add: payload_def not_none_def)
    have bp: "body_params n models reg doc = Some ?entry"
      using Some sc(1) by (simp add: body_params_def)
    from sc(2) m2 pl have "result = VDict (merge_items m2 ?entry)"
      by (simp add: merge_def)
    moreover have "distinct (map fst ?entry)" by simp
    from later_merge[OF this, of m2]
    have "\<forall>key. map_of (merge_items m2 ?entry) key = later_wins (map_of m2 key) (map_of ?entry key)"
      by blast
    ultimately show ?thesis using bp by blast
  qed
  then obtain body m3 where bp: "body_params n models reg doc = Some body"
    and m3: "result = VDict m3"
      "\<forall>key. map_of m3 key = later_wins (map_of m2 key) (map_of body key)"
    by blast
  have "merged_in_order m3 first parsed declared body"
    unfolding merged_in_order_def using m1(2) m2(2) m3(2) by simp
  with pp bp m3(1) show ?thesis by blast
qed

lemma sources_setitem:
  assumes "k \<noteq> VStr ''parser''" "k \<noteq> VStr ''params''" "k \<noteq> VStr ''body''"
  shows "parsed_params (setitem k v doc) = parsed_params doc"
    and "declared_params (setitem k v doc) = declared_params doc"
    and "body_params n models reg (setitem k v doc) = body_params n models reg doc"
  using assms by (simp_all add: parsed_params_def declared_params_def body_params_def map_of_setitem)

lemma methods_keep:
  "extract_resource_doc_methods n models att r ms doc s = (Some (Inr v), s') \<Longrightarrow>
   \<exists>dd. v = VDict dd \<and> (\<forall>k. k \<notin> VStr ` set ms \<longrightarrow> map_of dd k = map_of doc k)"
proof (induction ms arbitrary: doc s)
  case Nil
  then show ?case by (auto dest: return_ok_returns)
next
  case (Cons m0 ms)
  show ?case
  proof (cases "map_of (r_impls r) m0")
    case None
    with Cons.prems show ?thesis by (simp add: raise_err_def)
  next
    case (Some impl)
    with Cons.prems have
      "bind_prog
         (on_registry
            (extract_method_doc n models impl
               (case map_of doc (VStr m0) of None \<Rightarrow> VDict [] | Some md \<Rightarrow> md)))
         (\<lambda>method_doc.
            bind_prog (store_doc att (r_apidoc r) (setitem (VStr m0) method_doc doc))
              (\<lambda>_. extract_resource_doc_methods n models att r ms
                      (setitem (VStr m0) method_doc doc))) s = (Some (Inr v), s')"
      by simp
    from bind_prog_returns[OF this] obtain md s1 where
      "bind_prog (store_doc att (r_apidoc r) (setitem (VStr m0) md doc))
         (\<lambda>_. extract_resource_doc_methods n models att r ms (setitem (VStr m0) md doc)) s1
       = (Some (Inr v), s')"
      by blast
    from bind_prog_returns[OF this] obtain u s2 where
      "extract_resource_doc_methods n models att r ms (setitem (VStr m0) md doc) s2
       = (Some (Inr v), s')"
      by blast
    from Cons.IH[OF this] obtain dd where
      "v = VDict dd" "\<forall>k. k \<notin> VStr ` set ms \<longrightarrow> map_of dd k = map_of (setitem (VStr m0) md doc) k"
      by blast
    then show ?thesis by (auto simp: map_of_setitem)
  qed
qed

lemma extract_resource_doc_from_returns:
  assumes "extract_resource_doc_from n ap models att r url doc s = (Some (Inr v), s')"
  shows "\<exists>path_params params reg' dd.
           extract_path_params (url_map_converters ap) url = Inr path_params
         \<and> merge_params n models (VDict path_params)
              (setitem (VStr ''name'') (VStr (r_name r)) doc) (registered_models s)
             = (Some (Inr params), reg')
         \<and> v = VDict dd
         \<and> (\<forall>k. k \<notin> VStr ` set (resource_methods r) \<longrightarrow>
                map_of dd k =
                  map_of (setitem (VStr ''params'') params
                            (setitem (VStr ''name'') (VStr (r_name r)) doc)) k)"
proof -
  let ?named = "setitem (VStr ''name'') (VStr (r_name r)) doc"
  from bind_prog_returns[OF assms[unfolded extract_resource_doc_from_def]] obtain u s1 where
    st: "store_doc att (r_apidoc r) ?named s = (Some (Inr u), s1)"
    and c1: "bind_prog (lift_result (extract_path_params (url_map_converters ap) url))
       (\<lambda>path_params.
     bind_prog (on_registry (merge_params n models (VDict path_params) ?named)) (\<lambda>params.
     bind_prog (store_doc att (r_apidoc r) (setitem (VStr ''params'') params ?named)) (\<lambda>_.
       extract_resource_doc_methods n models att r (resource_methods r)
         (setitem (VStr ''params'') params ?named)))) s1 = (Some (Inr v), s')"
    by blast
  from store_doc_returns[OF st] have reg1: "registered_models s1 = registered_models s" .
  from bind_prog_returns[OF c1] obtain path_params s2 where
    pp: "lift_result (extract_path_params (url_map_converters ap) url) s1
           = (Some (Inr path_params), s2)"
    and c2: "bind_prog (on_registry (merge_params n models (VDict path_params) ?named))
       (\<lambda>params.
     bind_prog (store_doc att (r_apidoc r) (setitem (VStr ''params'') params ?named)) (\<lambda>_.
       extract_resource_doc_methods n models att r (resource_methods r)
         (setitem (VStr ''params'') params ?named))) s2 = (Some (Inr v), s')"
    by blast
  from lift_result_returns[OF pp] have
    path: "extract_path_params (url_map_converters ap) url = Inr path_params" and s2: "s2 = s1"
    by simp_all
  from bind_prog_returns[OF c2] obtain params s3 where
    mp: "on_registry (merge_params n models (VDict path_params) ?named) s2
           = (Some (Inr params), s3)"
    and c3: "bind_prog (store_doc att (r_apidoc r) (setitem (VStr ''params'') params ?named))
       (\<lambda>_. extract_resource_doc_methods n models att r (resource_methods r)
         (setitem (VStr ''params'') params ?named)) s3 = (Some (Inr v), s')"
    by blast
  from on_registry_returns[OF mp] s2 reg1 obtain reg' where
    merged: "merge_params n models (VDict path_params) ?named (registered_models s)
               = (Some (Inr params), reg')"
    by auto
  from bind_prog_returns[OF c3] obtain u' s4 where
    "extract_resource_doc_methods n models att r (resource_methods r)
       (setitem (VStr ''params'') params ?named) s4 = (Some (Inr v), s')"
    by blast
  from methods_keep[OF this] path merged show ?thesis by blast
qed

lemma extract_resource_doc_returns:
  assumes "extract_resource_doc n ap models r url s = (Some (Inr (VDict dd)), s')"
  shows "\<exists>path_params params reg'.
           extract_path_params (url_map_converters ap) url = Inr path_params
         \<and> merge_params n models (VDict path_params)
              (setitem (VStr ''name'') (VStr (r_name r)) (class_doc s r)) (registered_models s)
             = (Some (Inr params), reg')
         \<and> (\<forall>k. k \<notin> VStr ` set (resource_methods r) \<longrightarrow>
                map_of dd k =
                  map_of (setitem (VStr ''params'') params
                            (setitem (VStr ''name'') (VStr (r_name r)) (class_doc s r))) k)"
proof (cases "map_of (resource_apidoc s) (r_apidoc r)")
  case None
  with assms have "extract_resource_doc_from n ap models False r url [] s
      = (Some (Inr (VDict dd)), s')"
    by (simp add: extract_resource_doc_def)
  from extract_resource_doc_from_returns[OF this] None show ?thesis
    by (auto simp: class_doc_def)
next
  case (Some v)
  show ?thesis
  proof (cases "\<exists>d. v = VDict d")
    case True
    then obtain d where v: "v = VDict d" by blast
    with assms Some have "extract_resource_doc_from n ap models True r url d s
        = (Some (Inr (VDict dd)), s')"
      by (simp add: extract_resource_doc_def)
    from extract_resource_doc_from_returns[OF this] Some v show ?thesis
      by (auto simp: class_doc_def)
  next
    case False
    with assms Some show ?thesis
      by (cases v) (auto simp: extract_resource_doc_def return_ok_def raise_err_def
          split: bool.splits)
  qed
qed

lemma extract_method_doc_returns:
  assumes r: "fst (extract_method_doc n models impl old reg) = Some (Inr (VDict md))"
    and m: "merge old (case i_apidoc impl of None \<Rightarrow> VDict [] | Some d \<Rightarrow> d) = Inr (VDict mdoc)"
  shows "\<exists>params.
           fst (merge_params n models (VDict [])
                  (setitem (VStr ''docstring'') (parse_docstring (i_docstring impl)) mdoc) reg)
             = Some (Inr params)
         \<and> map_of md (VStr ''params'') = Some params"
proof -
  from r obtain reg' where
    "extract_method_doc n models impl old reg = (Some (Inr (VDict md)), reg')"
    by (cases "extract_method_doc n models impl old reg") auto
  with m have
    "bind_prog
       (merge_params n models (VDict [])
          (setitem (VStr ''docstring'') (parse_docstring (i_docstring impl)) mdoc))
       (\<lambda>params.
          return_ok
            (VDict (setitem (VStr ''params'') params
                     (setitem (VStr ''docstring'') (parse_docstring (i_docstring impl)) mdoc))))
       reg = (Some (Inr (VDict md)), reg')"
    by (simp add: extract_method_doc_def bind_prog_def lift_result_def return_ok_def)
  from bind_prog_returns[OF this] obtain params reg1 where
    "merge_params n models (VDict [])
       (setitem (VStr ''docstring'') (parse_docstring (i_docstring impl)) mdoc) reg
       = (Some (Inr params), reg1)"
    "return_ok
       (VDict (setitem (VStr ''params'') params
                (setitem (VStr ''docstring'') (parse_docstring (i_docstring impl)) mdoc))) reg1
       = (Some (Inr (VDict md)), reg')"
    by blast
  then show ?thesis by (auto dest!: return_ok_returns simp: map_of_setitem)
qed

text \<open>
  C5, as amended. The \<^verbatim>\<open>params\<close> of the doc that \<^verbatim>\<open>extract_resource_doc\<close> returns for a
  resource are merged from four sources in this order: the parameters extracted from
  the path, those derived from the parser of the class's \<^verbatim>\<open>__apidoc__\<close>, its declared
  \<^verbatim>\<open>params\<close>, and the \<^verbatim>\<open>payload\<close> parameter of its \<^verbatim>\<open>body\<close>; the \<^verbatim>\<open>params\<close> of a method doc are merged
  in the same way from the empty mapping and the three sources of the method's merged
  doc. Under a parameter name that two sources share, the entry of the later source
  replaces that of the earlier one, except that two mappings are merged: the keys of the
  later entry replace those of the earlier entry under the same rule, and the other keys
  of the earlier entry stay.
\<close>

theorem extract_resource_doc_params_order:
  "(doc_params (fst (extract_resource_doc n ap models r url s)) = Some params
      \<and> ''params'' \<notin> set (resource_methods r)
      \<and> declared_params (class_doc s r) = Some declared
    \<longrightarrow> (\<exists>path_params parsed body merged.
            extract_path_params (url_map_converters ap) url = Inr path_params
          \<and> parsed_params (class_doc s r) = Some parsed
          \<and> body_params n models (registered_models s) (class_doc s r) = Some body
          \<and> params = VDict merged
          \<and> merged_in_order merged path_params parsed declared body))
   \<and> (fst (extract_method_doc n models impl old reg) = Some (Inr (VDict md))
        \<and> merge old (case i_apidoc impl of None \<Rightarrow> VDict [] | Some d \<Rightarrow> d) = Inr (VDict mdoc)
        \<and> declared_params mdoc = Some declared'
      \<longrightarrow> (\<exists>parsed body merged.
              parsed_params mdoc = Some parsed
            \<and> body_params n models reg mdoc = Some body
            \<and> map_of md (VStr ''params'') = Some (VDict merged)
            \<and> merged_in_order merged [] parsed declared' body))
   \<and> (distinct (map fst later)
      \<longrightarrow> map_of (merge_items earlier later) key
            = later_wins (map_of earlier key) (map_of later key))"
proof (intro conjI impI)
  assume a: "doc_params (fst (extract_resource_doc n ap models r url s)) = Some params
      \<and> ''params'' \<notin> set (resource_methods r)
      \<and> declared_params (class_doc s r) = Some declared"
  let ?named = "setitem (VStr ''name'') (VStr (r_name r)) (class_doc s r)"
  from a obtain dd where
    run: "fst (extract_resource_doc n ap models r url s) = Some (Inr (VDict dd))"
    and dp: "map_of dd (VStr ''params'') = Some params"
    by (auto simp: doc_params_def split: option.splits sum.splits val.splits)
  from run obtain s' where
    "extract_resource_doc n ap models r url s = (Some (Inr (VDict dd)), s')"
    by (cases "extract_resource_doc n ap models r url s") auto
  from extract_resource_doc_returns[OF this] obtain path_params params0 reg' where
    path: "extract_path_params (url_map_converters ap) url = Inr path_params"
    and mp: "merge_params n models (VDict path_params) ?named (registered_models s)
               = (Some (Inr params0), reg')"
    and keep: "\<forall>k. k \<notin> VStr ` set (resource_methods r) \<longrightarrow>
                map_of dd k = map_of (setitem (VStr ''params'') params0 ?named) k"
    by blast
  from a have "VStr ''params'' \<notin> VStr ` set (resource_methods r)" by auto
  with keep dp have p0: "params0 = params" by (simp add: map_of_setitem)
  from a have "declared_params ?named = Some declared"
    by (simp add: sources_setitem)
  from merge_params_law[OF _ this, of n models path_params "registered_models s" params] mp p0
  obtain parsed body merged where
    "parsed_params ?named = Some parsed"
    "body_params n models (registered_models s) ?named = Some body"
    "params = VDict merged" "merged_in_order merged path_params parsed declared body"
    by auto
  with path show "\<exists>path_params parsed body merged.
            extract_path_params (url_map_converters ap) url = Inr path_params
          \<and> parsed_params (class_doc s r) = Some parsed
          \<and> body_params n models (registered_models s) (class_doc s r) = Some body
          \<and> params = VDict merged
          \<and> merged_in_order merged path_params parsed declared body"
    by (auto simp: sources_setitem)
next
  assume b: "fst (extract_method_doc n models impl old reg) = Some (Inr (VDict md))
        \<and> merge old (case i_apidoc impl of None \<Rightarrow> VDict [] | Some d \<Rightarrow> d) = Inr (VDict mdoc)
        \<and> declared_params mdoc = Some declared'"
  let ?doc = "setitem (VStr ''docstring'') (parse_docstring (i_docstring impl)) mdoc"
  from b extract_method_doc_returns[of n models impl old reg md mdoc] obtain params where
    mp: "fst (merge_params n models (VDict []) ?doc reg) = Some (Inr params)"
    and p: "map_of md (VStr ''params'') = Some params"
    by blast
  from b have "declared_params ?doc = Some declared'"
    by (simp add: sources_setitem)
  from merge_params_law[OF mp this] p
  show "\<exists>parsed body merged.
              parsed_params mdoc = Some parsed
            \<and> body_params n models reg mdoc = Some body
            \<and> map_of md (VStr ''params'') = Some (VDict merged)
            \<and> merged_in_order merged [] parsed declared' body"
    by (auto simp: sources_setitem)
next
  assume "distinct (map fst later)"
  then show "map_of (merge_items earlier later) key
            = later_wins (map_of earlier key) (map_of later key)"
    by (rule later_merge)
qed

text \<open>
  C5 as stated fails: a later source does not override an earlier one on every
  conflicting key. The path \<^verbatim>\<open>/persons/<int:id>\<close> gives the parameter \<^verbatim>\<open>id\<close>, and the declared
  \<^verbatim>\<open>params\<close> of the resource describe \<^verbatim>\<open>id\<close>; both have the key \<^verbatim>\<open>id\<close>, and the merged
  mapping has under it neither the declared entry nor the path entry but the path
  entry with the description added.
\<close>

theorem declared_entry_merged_onto_path_entry:
  "extract_path_params (url_map_converters example_app) ''/persons/<int:id>'' =
     Inr [(VStr ''id'',
           VDict [(VStr ''name'', VStr ''id''), (VStr ''in'', VStr ''path''),
                  (VStr ''required'', VBool True), (VStr ''type'', VStr ''integer'')])]
   \<and> map_of (class_doc described_state described) (VStr ''params'') =
       Some (VDict [(VStr ''id'', VDict [(VStr ''description'', VStr ''The id'')])])
   \<and> doc_params (fst (extract_resource_doc 1 example_app example_models described
                         ''/persons/<int:id>'' described_state)) =
       Some (VDict [(VStr ''id'',
                     VDict [(VStr ''name'', VStr ''id''), (VStr ''in'', VStr ''path''),
                            (VStr ''required'', VBool True), (VStr ''type'', VStr ''integer''),
                            (VStr ''description'', VStr ''The id'')])])"
  by code_simp

lemma documented_run:
  "doc_params (fst (extract_resource_doc 2 example_app example_models described
                      ''/persons/<int:id>'' documented_state)) = Some merged_example
   \<and> ''params'' \<notin> set (resource_methods described)
   \<and> declared_params (class_doc documented_state described) =
       Some [(VStr ''id'', VDict [(VStr ''description'', VStr ''The id'')]),
             (VStr ''q'', VDict [(VStr ''type'', VStr ''string'')])]"
  by code_simp

lemma limited_run:
  "fst (extract_method_doc 2 example_models limited_impl (VDict []) []) =
     Some (Inr (VDict [(VStr ''params'',
                        VDict [(VStr ''limit'', VDict [(VStr ''type'', VType PyInt)])]),
                       (VStr ''docstring'', parse_docstring example_docstring)]))
   \<and> merge (VDict []) (case i_apidoc limited_impl of None \<Rightarrow> VDict [] | Some d \<Rightarrow> d) =
       Inr (VDict [(VStr ''params'',
                    VDict [(VStr ''limit'', VDict [(VStr ''type'', VType PyInt)])])])
   \<and> declared_params
        [(VStr ''params'', VDict [(VStr ''limit'', VDict [(VStr ''type'', VType PyInt)])])] =
       Some [(VStr ''limit'', VDict [(VStr ''type'', VType PyInt)])]"
  by code_simp

theorem extract_resource_doc_params_order_witness:
  "doc_params (fst (extract_resource_doc 2 example_app example_models described
                      ''/persons/<int:id>'' documented_state)) = Some merged_example
   \<and> ''params'' \<notin> set (resource_methods described)
   \<and> declared_params (class_doc documented_state described) =
       Some [(VStr ''id'', VDict [(VStr ''description'', VStr ''The id'')]),
             (VStr ''q'', VDict [(VStr ''type'', VStr ''string'')])]
   \<and> (\<exists>path_params parsed body merged.
          extract_path_params (url_map_converters example_app) ''/persons/<int:id>''
            = Inr path_params
        \<and> parsed_params (class_doc documented_state described) = Some parsed
        \<and> body_params 2 example_models (registered_models documented_state)
            (class_doc documented_state described) = Some body
        \<and> merged_example = VDict merged
        \<and> merged_in_order merged path_params parsed
            [(VStr ''id'', VDict [(VStr ''description'', VStr ''The id'')]),
             (VStr ''q'', VDict [(VStr ''type'', VStr ''string'')])] body)
   \<and> (\<exists>parsed body merged.
          parsed_params
            [(VStr ''params'', VDict [(VStr ''limit'', VDict [(VStr ''type'', VType PyInt)])])]
            = Some parsed
        \<and> body_params 2 example_models []
            [(VStr ''params'', VDict [(VStr ''limit'', VDict [(VStr ''type'', VType PyInt)])])]
            = Some body
        \<and> map_of [(VStr ''params'',
                    VDict [(VStr ''limit'', VDict [(VStr ''type'', VType PyInt)])]),
                   (VStr ''docstring'', parse_docstring example_docstring)] (VStr ''params'')
            = Some (VDict merged)
        \<and> merged_in_order merged [] parsed
            [(VStr ''limit'', VDict [(VStr ''type'', VType PyInt)])] body)
   \<and> distinct (map fst [(VStr ''id'', VDict [(VStr ''description'', VStr ''The id'')])])
   \<and> map_of (merge_items [(VStr ''id'', path_param ''id'' ''integer'')]
                [(VStr ''id'', VDict [(VStr ''description'', VStr ''The id'')])]) (VStr ''id'')
       = later_wins (map_of [(VStr ''id'', path_param ''id'' ''integer'')] (VStr ''id''))
           (map_of [(VStr ''id'', VDict [(VStr ''description'', VStr ''The id'')])] (VStr ''id''))"
proof -
  note t = extract_resource_doc_params_order
    [where n = 2 and ap = example_app and models = example_models and r = described
       and url = "''/persons/<int:id>''" and s = documented_state and params = merged_example
       and declared = "[(VStr ''id'', VDict [(VStr ''description'', VStr ''The id'')]),
                        (VStr ''q'', VDict [(VStr ''type'', VStr ''string'')])]"
       and impl = limited_impl and old = "VDict []" and reg = "[]"
       and md = "[(VStr ''params'',
                   VDict [(VStr ''limit'', VDict [(VStr ''type'', VType PyInt)])]),
                  (VStr ''docstring'', parse_docstring example_docstring)]"
       and mdoc = "[(VStr ''params'',
                     VDict [(VStr ''limit'', VDict [(VStr ''type'', VType PyInt)])])]"
       and declared' = "[(VStr ''limit'', VDict [(VStr ''type'', VType PyInt)])]"
       and later = "[(VStr ''id'', VDict [(VStr ''description'', VStr ''The id'')])]"
       and earlier = "[(VStr ''id'', path_param ''id'' ''integer'')]" and key = "VStr ''id''"]
  have d: "distinct (map fst [(VStr ''id'', VDict [(VStr ''description'', VStr ''The id'')])])"
    by simp
  from t documented_run limited_run d show ?thesis by blast
qed

section \<open>What a pass writes to the doc of a resource\<close>

lemma on_registry_frame:
  "(\<And>s reg. I s \<Longrightarrow> I (s\<lparr>registered_models := reg\<rparr>)) \<Longrightarrow> preserves I (on_registry m)"
  unfolding preserves_def on_registry_def by (auto split: prod.splits)

lemma agrees_off_setitem:
  "agrees_off K doc d \<Longrightarrow> k \<in> K \<Longrightarrow> agrees_off K (setitem k v doc) d"
  by (auto simp: agrees_off_def setitem_def update_conv')

lemma store_doc_attached:
  "agrees_off K doc d \<Longrightarrow> preserves (attached_frame s0 rid K d) (store_doc True rid doc)"
  unfolding store_doc_def
  by (rule preserves_modify) (auto simp: attached_frame_def setitem_def update_conv')

lemma store_doc_unattached: "preserves (untouched s0) (store_doc False rid doc)"
  unfolding store_doc_def by (rule preserves_modify) simp

lemma methods_attached:
  "agrees_off K doc d \<Longrightarrow> VStr ` set ms \<subseteq> K \<Longrightarrow>
   preserves (attached_frame s0 (r_apidoc r) K d)
     (extract_resource_doc_methods n models True r ms doc)"
proof (induction ms arbitrary: doc)
  case Nil
  then show ?case by (simp add: preserves_return_ok)
next
  case (Cons m0 ms)
  from Cons.prems have mk: "VStr m0 \<in> K" and rest: "VStr ` set ms \<subseteq> K" by auto
  have step: "preserves (attached_frame s0 (r_apidoc r) K d)
     (bind_prog (store_doc True (r_apidoc r) (setitem (VStr m0) md doc))
        (\<lambda>_. extract_resource_doc_methods n models True r ms
                 (setitem (VStr m0) md doc)))" for md
    using agrees_off_setitem[OF Cons.prems(1) mk, of md]
    by (intro preserves_bind_prog store_doc_attached Cons.IH rest)
  have reg: "preserves (attached_frame s0 (r_apidoc r) K d) (on_registry m)" for m :: "(val, registry) prog"
    by (rule on_registry_frame) (simp add: attached_frame_def)
  show ?case
  proof (cases "map_of (r_impls r) m0")
    case None
    then show ?thesis by (simp add: preserves_raise_err)
  next
    case (Some impl)
    then show ?thesis
      by (simp add: preserves_bind_prog reg step)
  qed
qed

lemma methods_unattached:
  "preserves (untouched s0) (extract_resource_doc_methods n models False r methods doc)"
  by (induction n models "False" r methods doc rule: extract_resource_doc_methods.induct)
     (auto intro!: preserves_intros on_registry_frame store_doc_unattached split: option.splits
        simp: untouched_def)

lemma from_attached:
  assumes "agrees_off (doc_keys_written r) doc d"
  shows "preserves (attached_frame s0 (r_apidoc r) (doc_keys_written r) d)
           (extract_resource_doc_from n ap models True r url doc)"
proof -
  let ?K = "doc_keys_written r"
  have n: "agrees_off ?K (setitem (VStr ''name'') (VStr (r_name r)) doc) d"
    using assms by (rule agrees_off_setitem) (simp add: doc_keys_written_def)
  have p: "agrees_off ?K (setitem (VStr ''params'') ps
             (setitem (VStr ''name'') (VStr (r_name r)) doc)) d" for ps
    using n by (rule agrees_off_setitem) (simp add: doc_keys_written_def)
  have m: "VStr ` set (resource_methods r) \<subseteq> ?K"
    by (auto simp: doc_keys_written_def)
  show ?thesis
    unfolding extract_resource_doc_from_def
    by (intro preserves_intros store_doc_attached n p methods_attached m on_registry_frame)
       (simp add: attached_frame_def)
qed

lemma from_unattached:
  "preserves (untouched s0) (extract_resource_doc_from n ap models False r url doc)"
  unfolding extract_resource_doc_from_def
  by (intro preserves_intros store_doc_unattached methods_unattached on_registry_frame)
     (simp add: untouched_def)

text \<open>
  What a pass writes: \<^verbatim>\<open>extract_resource_doc\<close> assigns the keys \<^verbatim>\<open>name\<close>, \<^verbatim>\<open>params\<close> and each
  lower-cased method name in the \<^verbatim>\<open>__apidoc__\<close> mapping attached to the resource and leaves
  the other keys of that mapping as they were; it leaves untouched the \<^verbatim>\<open>__apidoc__\<close> of a
  resource that has none or has \<^verbatim>\<open>False\<close>, that of every other resource and that of every
  error handler. This holds whether the call returns, raises or is cut off.
\<close>

lemma extract_resource_doc_frame:
  "handler_apidoc (snd (extract_resource_doc n ap models r url s)) = handler_apidoc s
   \<and> (\<forall>i. i \<noteq> r_apidoc r \<longrightarrow>
         map_of (resource_apidoc (snd (extract_resource_doc n ap models r url s))) i
           = map_of (resource_apidoc s) i)
   \<and> (case map_of (resource_apidoc s) (r_apidoc r) of
         Some (VDict d) \<Rightarrow>
           (\<exists>d'. map_of (resource_apidoc (snd (extract_resource_doc n ap models r url s))) (r_apidoc r)
                   = Some (VDict d')
                 \<and> agrees_off (doc_keys_written r) d' d)
       | _ \<Rightarrow> resource_apidoc (snd (extract_resource_doc n ap models r url s)) = resource_apidoc s)"
proof (cases "map_of (resource_apidoc s) (r_apidoc r)")
  case None
  have "untouched s s" by (simp add: untouched_def)
  with from_unattached[of s n ap models r url "[]"]
  have "untouched s (snd (extract_resource_doc_from n ap models False r url [] s))"
    by (simp add: preserves_def)
  with None show ?thesis
    by (simp add: extract_resource_doc_def untouched_def)
next
  case (Some v)
  show ?thesis
  proof (cases "\<exists>d. v = VDict d")
    case True
    then obtain d where v: "v = VDict d" by blast
    have "agrees_off (doc_keys_written r) d d" by (simp add: agrees_off_def)
    from from_attached[OF this, of s n ap models url]
    have "attached_frame s (r_apidoc r) (doc_keys_written r) d
            (snd (extract_resource_doc_from n ap models True r url d s))"
      using Some v by (simp add: preserves_def attached_frame_def agrees_off_def)
    with Some v show ?thesis
      by (simp add: extract_resource_doc_def attached_frame_def)
  next
    case False
    with Some show ?thesis
      by (cases v) (auto simp: extract_resource_doc_def return_ok_def raise_err_def
          split: bool.splits)
  qed
qed


text \<open>
  C2 does not hold of the code. \<^verbatim>\<open>extract_resource_doc\<close> takes the \<^verbatim>\<open>__apidoc__\<close> of the class
  without copying it and assigns its items, while the doc of a method is merged into a
  new mapping. After one pass over the example resource, whose \<^verbatim>\<open>__apidoc__\<close> was
  \<^verbatim>\<open>{'body': 'Person'}\<close>, the attached mapping also holds \<^verbatim>\<open>name\<close>, the merged \<^verbatim>\<open>params\<close> and the
  doc of \<^verbatim>\<open>get\<close>. What one pass wrote is read by the next: for a resource with two
  routes, the doc built for \<^verbatim>\<open>/b/<name>\<close> has the path parameter \<^verbatim>\<open>name\<close> alone on a fresh
  resource, and the path parameter \<^verbatim>\<open>id\<close> of \<^verbatim>\<open>/a/<int:id>\<close> as well once that route has been
  serialized.
\<close>

theorem extract_resource_doc_mutates_apidoc:
  "resource_apidoc example_state = [(0, VDict [(VStr ''body'', VStr ''Person'')])]
   \<and> resource_apidoc
        (snd (extract_resource_doc 3 example_app example_models example_resource
                ''/persons/<int:id>'' example_state))
       = [(0, example_apidoc_after)]
   \<and> doc_params
        (fst (extract_resource_doc 1 example_app example_models two_routes ''/b/<name>''
                two_routes_state))
       = Some (VDict [(VStr ''name'', path_param ''name'' ''string'')])
   \<and> doc_params
        (fst (extract_resource_doc 1 example_app example_models two_routes ''/b/<name>''
                (snd (extract_resource_doc 1 example_app example_models two_routes
                        ''/a/<int:id>'' two_routes_state))))
       = Some (VDict [(VStr ''name'', path_param ''name'' ''string''),
                      (VStr ''id'', path_param ''id'' ''integer'')])"
  by code_simp

section \<open>The keys of the document\<close>

lemma as_dict_bare:
  "as_dict 0 example_app bare_api example_state = (Some (Inr bare_specs), example_state)"
  by code_simp

lemma not_none_keys: "fst ` set (not_none d) \<subseteq> fst ` set d"
  by (auto simp: not_none_def)

lemma not_none_distinct: "distinct (map fst d) \<Longrightarrow> distinct (map fst (not_none d))"
  by (simp add: not_none_def distinct_map_filter)

lemma not_none_values: "VNone \<notin> snd ` set (not_none d)"
  by (auto simp: not_none_def)

lemma map_of_not_none:
  "distinct (map fst d) \<Longrightarrow>
   map_of (not_none d) k =
     (case map_of d k of Some v \<Rightarrow> if v = VNone then None else Some v | None \<Rightarrow> None)"
proof (induction d)
  case Nil
  then show ?case by (simp add: not_none_def)
next
  case (Cons e d)
  obtain k' v' where e: "e = (k', v')" by (cases e)
  from Cons.prems e have "map_of d k' = None" by (auto simp: map_of_eq_None_iff)
  with Cons e show ?case
    by (auto simp: not_none_def split: option.splits)
qed

lemma specs_dict_keys: "fst ` set (specs_dict a paths tags defs resp host) = spec_keys"
  by (simp add: specs_dict_def spec_keys_def)

lemma specs_dict_distinct: "distinct (map fst (specs_dict a paths tags defs resp host))"
  by (simp add: specs_dict_def)

lemma or_none_truthy: "or_none v \<noteq> VNone \<Longrightarrow> truthy (or_none v)"
  by (simp add: or_none_def split: if_splits)

lemma extract_tags_list: "extract_tags a = Inr tags \<Longrightarrow> \<exists>ts. tags = VList ts"
  by (auto simp: extract_tags_def split: sum.splits prod.splits)

lemma as_dict_shape:
  assumes "as_dict n ap a s = (Some (Inr d), s')"
  shows "\<exists>paths ts defs resp host.
           d = not_none (specs_dict a paths (VList ts) defs resp host)"
proof -
  from bind_prog_returns[OF assms[unfolded as_dict_def]] obtain tags s1 where
    t: "lift_result (extract_tags a) s = (Some (Inr tags), s1)" and
    r1: "bind_prog (register_errors n a) (\<lambda>responses.
     bind_prog (serialize_namespaces n ap a (api_namespaces a) []) (\<lambda>paths.
     bind_prog get_state (\<lambda>s.
     bind_prog (lift_result (serialize_definitions (registered_models s))) (\<lambda>definitions.
     bind_prog (lift_result (get_host ap a)) (\<lambda>host.
       return_ok (not_none (specs_dict a paths tags definitions responses host))))))) s1
       = (Some (Inr d), s')"
    by blast
  from lift_result_returns[OF t] extract_tags_list obtain ts where ts: "tags = VList ts"
    by blast
  from bind_prog_returns[OF r1] obtain resp s2 where
    r2: "bind_prog (serialize_namespaces n ap a (api_namespaces a) []) (\<lambda>paths.
     bind_prog get_state (\<lambda>s.
     bind_prog (lift_result (serialize_definitions (registered_models s))) (\<lambda>definitions.
     bind_prog (lift_result (get_host ap a)) (\<lambda>host.
       return_ok (not_none (specs_dict a paths tags definitions resp host)))))) s2
       = (Some (Inr d), s')"
    by blast
  from bind_prog_returns[OF r2] obtain paths s3 where
    r3: "bind_prog get_state (\<lambda>s.
     bind_prog (lift_result (serialize_definitions (registered_models s))) (\<lambda>definitions.
     bind_prog (lift_result (get_host ap a)) (\<lambda>host.
       return_ok (not_none (specs_dict a paths tags definitions resp host))))) s3
       = (Some (Inr d), s')"
    by blast
  from bind_prog_returns[OF r3] obtain st :: state and s4 where
    r4: "bind_prog (lift_result (serialize_definitions (registered_models st))) (\<lambda>definitions.
     bind_prog (lift_result (get_host ap a)) (\<lambda>host.
       return_ok (not_none (specs_dict a paths tags definitions resp host)))) s4
       = (Some (Inr d), s')"
    by blast
  from bind_prog_returns[OF r4] obtain defs s5 where
    r5: "bind_prog (lift_result (get_host ap a)) (\<lambda>host.
       return_ok (not_none (specs_dict a paths tags defs resp host))) s5
       = (Some (Inr d), s')"
    by blast
  from bind_prog_returns[OF r5] obtain host s6 where
    "return_ok (not_none (specs_dict a paths tags defs resp host)) s6 = (Some (Inr d), s')"
    by blast
  from return_ok_returns[OF this] ts show ?thesis by blast
qed

text \<open>
  C1, as amended: the mapping that \<^verbatim>\<open>as_dict\<close> returns has no key other than \<^verbatim>\<open>swagger\<close>,
  \<^verbatim>\<open>basePath\<close>, \<^verbatim>\<open>paths\<close>, \<^verbatim>\<open>info\<close>, \<^verbatim>\<open>produces\<close>, \<^verbatim>\<open>consumes\<close>, \<^verbatim>\<open>securityDefinitions\<close>, \<^verbatim>\<open>security\<close>,
  \<^verbatim>\<open>tags\<close>, \<^verbatim>\<open>definitions\<close>, \<^verbatim>\<open>responses\<close> and \<^verbatim>\<open>host\<close>, each at most once, and no value \<^verbatim>\<open>None\<close>;
  \<^verbatim>\<open>securityDefinitions\<close>, \<^verbatim>\<open>security\<close>, \<^verbatim>\<open>definitions\<close> and \<^verbatim>\<open>responses\<close> are present only with a
  value that is not empty; \<^verbatim>\<open>swagger\<close>, \<^verbatim>\<open>basePath\<close>, \<^verbatim>\<open>info\<close>, \<^verbatim>\<open>produces\<close>, \<^verbatim>\<open>consumes\<close>, \<^verbatim>\<open>paths\<close> and
  \<^verbatim>\<open>tags\<close> are always present, empty or not.
\<close>

theorem as_dict_keys:
  assumes "as_dict n ap a s = (Some (Inr d), s')"
  shows "fst ` set d \<subseteq> spec_keys \<and> distinct (map fst d) \<and> VNone \<notin> snd ` set d
       \<and> (\<forall>k v. k \<in> {''securityDefinitions'', ''security'', ''definitions'', ''responses''}
              \<and> map_of d (VStr k) = Some v \<longrightarrow> truthy v)
       \<and> map_of d (VStr ''swagger'') = Some (VStr ''2.0'')
       \<and> map_of d (VStr ''basePath'') = Some (VStr (api_basepath a))
       \<and> map_of d (VStr ''info'') = Some (VDict (api_infos a))
       \<and> map_of d (VStr ''produces'') = Some (VList (api_representations a))
       \<and> map_of d (VStr ''consumes'') = Some (VList [VStr ''application/json''])
       \<and> (\<exists>paths. map_of d (VStr ''paths'') = Some (VDict paths))
       \<and> (\<exists>tags. map_of d (VStr ''tags'') = Some (VList tags))"
proof -
  from as_dict_shape[OF assms] obtain paths ts defs resp host where
    d: "d = not_none (specs_dict a paths (VList ts) defs resp host)" by blast
  let ?specs = "specs_dict a paths (VList ts) defs resp host"
  have keys: "fst ` set d \<subseteq> spec_keys"
    using not_none_keys[of ?specs] by (simp add: d specs_dict_keys)
  have dist: "distinct (map fst d)"
    unfolding d by (rule not_none_distinct) (rule specs_dict_distinct)
  have vals: "VNone \<notin> snd ` set d"
    unfolding d by (rule not_none_values)
  have m: "map_of d k =
     (case map_of ?specs k of Some v \<Rightarrow> if v = VNone then None else Some v | None \<Rightarrow> None)" for k
    unfolding d by (rule map_of_not_none) (rule specs_dict_distinct)
  have opt: "truthy v"
    if "k \<in> {''securityDefinitions'', ''security'', ''definitions'', ''responses''}
        \<and> map_of d (VStr k) = Some v" for k v
    using that or_none_truthy
    by (auto simp: m specs_dict_def split: if_splits)
  have fixed:
    "map_of d (VStr ''swagger'') = Some (VStr ''2.0'')"
    "map_of d (VStr ''basePath'') = Some (VStr (api_basepath a))"
    "map_of d (VStr ''info'') = Some (VDict (api_infos a))"
    "map_of d (VStr ''produces'') = Some (VList (api_representations a))"
    "map_of d (VStr ''consumes'') = Some (VList [VStr ''application/json''])"
    "map_of d (VStr ''paths'') =
       Some (VDict (map (\<lambda>(k, v). (VStr k, v)) (not_none_sorted paths)))"
    "map_of d (VStr ''tags'') = Some (VList ts)"
    by (simp_all add: m specs_dict_def)
  from keys dist vals opt fixed show ?thesis by blast
qed

text \<open>
  C1 as stated fails: for an API whose namespace has no resource, \<^verbatim>\<open>as_dict\<close> returns a
  document in which \<^verbatim>\<open>paths\<close> is the empty mapping.
\<close>

theorem as_dict_keeps_empty_paths:
  "as_dict 0 example_app bare_api example_state = (Some (Inr bare_specs), example_state)
   \<and> map_of bare_specs (VStr ''paths'') = Some (VDict [])"
  using as_dict_bare by (simp add: bare_specs_def)

theorem as_dict_keys_witness:
  "as_dict 0 example_app bare_api example_state = (Some (Inr bare_specs), example_state)
   \<and> fst ` set bare_specs \<subseteq> spec_keys \<and> distinct (map fst bare_specs)
   \<and> VNone \<notin> snd ` set bare_specs
   \<and> map_of bare_specs (VStr ''produces'') = Some (VList (api_representations bare_api))"
  using as_dict_keys[OF as_dict_bare] as_dict_bare by blast

section \<open>Registration of an acyclic graph of models\<close>



lemma bind_prog_unit: "bind_prog m (\<lambda>_. return_ok ()) = (m :: (unit, 's) prog)"
  by (auto simp: bind_prog_def return_ok_def fun_eq_iff split: prod.splits option.splits sum.splits)









lemma registers_mono: "registers models N m \<Longrightarrow> N \<le> N' \<Longrightarrow> registers models N' m"
  by (simp add: registers_def)








end
